theory Spec2Isabelle
  imports Main "HOL-Library.AList" "HOL-Library.Monad_Syntax" "HOL-Library.Sublist"
begin

section \<open>JavaScript values and the object heap\<close>

text \<open>
  The store code distinguishes a state that is copied from a state that is mutated in
  place, and compares records by reference (\<^verbatim>\<open>result !== branch[mapName][id]\<close>). Objects
  and arrays therefore live in an explicit heap and are named by references. A heap is a
  list of cells; a reference is an index into it, and allocation appends a cell, so a
  fresh reference never names an existing cell.
\<close>

type_synonym ref = nat

datatype val = Undefined | Null | NaN | Num int | Str string | Fn nat | Ref ref

type_synonym props = "(string \<times> val) list"

datatype cell = Arr "val list" | Obj props

type_synonym heap = "cell list"

definition alloc :: "cell \<Rightarrow> heap \<Rightarrow> val \<times> heap" where
  "alloc c h = (Ref (length h), h @ [c])"

definition load :: "heap \<Rightarrow> val \<Rightarrow> cell option" where
  "load h v = (case v of Ref r \<Rightarrow> (if r < length h then Some (h ! r) else None) | _ \<Rightarrow> None)"

definition store :: "heap \<Rightarrow> val \<Rightarrow> cell \<Rightarrow> heap option" where
  "store h v c = (case v of Ref r \<Rightarrow> (if r < length h then Some (h[r := c]) else None) | _ \<Rightarrow> None)"

subsection \<open>Property keys\<close>

text \<open>
  A JavaScript property key is a string: \<^verbatim>\<open>map[id]\<close> with a numeric \<^verbatim>\<open>id\<close> reads the
  property named by the decimal numeral of \<^verbatim>\<open>id\<close>.
\<close>

definition digit :: "nat \<Rightarrow> char" where
  "digit n = ''0123456789'' ! n"

fun nat_str :: "nat \<Rightarrow> string" where
  "nat_str n = (if n < 10 then [digit n] else nat_str (n div 10) @ [digit (n mod 10)])"

declare nat_str.simps [simp del]

definition int_str :: "int \<Rightarrow> string" where
  "int_str i = (if i < 0 then CHR ''-'' # nat_str (nat (- i)) else nat_str (nat i))"

text \<open>\<^verbatim>\<open>String(v)\<close> for the values used as identifiers. An object or a function used as
  a key is not an identifier of this library: an object gets the key of a plain object,
  a function one fixed key in place of its source text.\<close>

definition key_of :: "val \<Rightarrow> string" where
  "key_of v = (case v of
       Undefined \<Rightarrow> ''undefined''
     | Null \<Rightarrow> ''null''
     | NaN \<Rightarrow> ''NaN''
     | Num i \<Rightarrow> int_str i
     | Str s \<Rightarrow> s
     | Fn f \<Rightarrow> ''function''
     | Ref r \<Rightarrow> ''[object Object]'')"

subsection \<open>Comparison\<close>

text \<open>\<^verbatim>\<open>a === b\<close>: equal values, references to the same cell; NaN is not equal to itself.
  \<^verbatim>\<open>Array.prototype.includes\<close> compares with SameValueZero, which is HOL equality on
  these values.\<close>

definition strict_eq :: "val \<Rightarrow> val \<Rightarrow> bool" where
  "strict_eq a b \<longleftrightarrow> a = b \<and> a \<noteq> NaN"

definition arr_includes :: "val list \<Rightarrow> val \<Rightarrow> bool" where
  "arr_includes xs v \<longleftrightarrow> v \<in> set xs"

text \<open>\<^verbatim>\<open>arr.indexOf(v)\<close>: the first index holding a strictly equal value; \<open>None\<close> is -1.\<close>

fun indexOf :: "val list \<Rightarrow> val \<Rightarrow> nat option" where
  "indexOf [] v = None"
| "indexOf (x # xs) v = (if strict_eq x v then Some 0 else map_option Suc (indexOf xs v))"

subsection \<open>Reading and writing objects\<close>

text \<open>
  \<open>None\<close> is a thrown TypeError: a property read or written on \<^verbatim>\<open>undefined\<close> or
  \<^verbatim>\<open>null\<close>, an array method called on a value that is not an array. These are the
  failures of a state whose shape does not match the backend's configuration.
\<close>

definition obj_get :: "props \<Rightarrow> string \<Rightarrow> val" where
  "obj_get ps k = (case map_of ps k of Some v \<Rightarrow> v | None \<Rightarrow> Undefined)"

definition hasOwnProperty :: "props \<Rightarrow> string \<Rightarrow> bool" where
  "hasOwnProperty ps k \<longleftrightarrow> map_of ps k \<noteq> None"

definition index_keys :: "nat \<Rightarrow> string list" where
  "index_keys n = map nat_str [0..<n]"

definition arr_get :: "val list \<Rightarrow> string \<Rightarrow> val" where
  "arr_get xs k =
     (if k = ''length'' then Num (int (length xs))
      else obj_get (zip (index_keys (length xs)) xs) k)"

definition get_prop :: "heap \<Rightarrow> val \<Rightarrow> string \<Rightarrow> val option" where
  "get_prop h v k = (case v of
       Undefined \<Rightarrow> None
     | Null \<Rightarrow> None
     | Ref r \<Rightarrow> (case load h v of
           None \<Rightarrow> None
         | Some (Obj ps) \<Rightarrow> Some (obj_get ps k)
         | Some (Arr xs) \<Rightarrow> Some (arr_get xs k))
     | _ \<Rightarrow> Some Undefined)"

definition get_arr :: "heap \<Rightarrow> val \<Rightarrow> val list option" where
  "get_arr h v = (case load h v of Some (Arr xs) \<Rightarrow> Some xs | _ \<Rightarrow> None)"

text \<open>The property list of a plain object, \<open>None\<close> for any other value.\<close>

definition get_obj :: "heap \<Rightarrow> val \<Rightarrow> props option" where
  "get_obj h v = (case load h v of Some (Obj ps) \<Rightarrow> Some ps | _ \<Rightarrow> None)"

text \<open>The own enumerable properties that \<^verbatim>\<open>Object.assign\<close> and lodash's \<^verbatim>\<open>forOwn\<close>
  read from a source: none for \<^verbatim>\<open>undefined\<close>, \<^verbatim>\<open>null\<close> and numbers. The characters of
  a string are not modelled as its properties; no source or patch of the store is a
  string.\<close>

definition own_props :: "heap \<Rightarrow> val \<Rightarrow> props" where
  "own_props h v = (case load h v of
       Some (Obj ps) \<Rightarrow> ps
     | Some (Arr xs) \<Rightarrow> zip (index_keys (length xs)) xs
     | None \<Rightarrow> [])"

text \<open>\<^verbatim>\<open>Object.assign(target, src)\<close> on the property list of the target: a key already
  present keeps its place, a new key goes to the end.\<close>

definition assign :: "props \<Rightarrow> props \<Rightarrow> props" where
  "assign ps src = foldl (\<lambda>acc (k, v). AList.update k v acc) ps src"

text \<open>\<^verbatim>\<open>target[k] = v\<close> on a plain object.\<close>

definition set_prop :: "heap \<Rightarrow> val \<Rightarrow> string \<Rightarrow> val \<Rightarrow> heap option" where
  "set_prop h t k v = (case load h t of
       Some (Obj ps) \<Rightarrow> store h t (Obj (AList.update k v ps))
     | _ \<Rightarrow> None)"

text \<open>\<^verbatim>\<open>Object.assign(target, src)\<close> writing into the target's cell.\<close>

definition assign_into :: "heap \<Rightarrow> val \<Rightarrow> props \<Rightarrow> heap option" where
  "assign_into h t src = (case load h t of
       Some (Obj ps) \<Rightarrow> store h t (Obj (assign ps src))
     | _ \<Rightarrow> None)"

text \<open>\<^verbatim>\<open>delete target[k]\<close>.\<close>

definition delete_prop :: "heap \<Rightarrow> val \<Rightarrow> string \<Rightarrow> heap option" where
  "delete_prop h t k = (case load h t of
       Some (Obj ps) \<Rightarrow> store h t (Obj (AList.delete k ps))
     | _ \<Rightarrow> None)"

text \<open>\<^verbatim>\<open>arr.push(v)\<close>, and \<^verbatim>\<open>arr.concat(v)\<close>, which spreads an array argument.\<close>

definition arr_push :: "heap \<Rightarrow> val \<Rightarrow> val \<Rightarrow> heap option" where
  "arr_push h a v = (case load h a of
       Some (Arr xs) \<Rightarrow> store h a (Arr (xs @ [v]))
     | _ \<Rightarrow> None)"

definition arr_concat :: "heap \<Rightarrow> val list \<Rightarrow> val \<Rightarrow> val list" where
  "arr_concat h xs v = (case load h v of Some (Arr ys) \<Rightarrow> xs @ ys | _ \<Rightarrow> xs @ [v])"

section \<open>Backend: the record store of one model\<close>

text \<open>The options of the \<^verbatim>\<open>Backend\<close> constructor (src/Backend.js).\<close>

record backend =
  idAttribute :: string
  indexById :: bool
  ordered :: bool
  arrName :: string
  mapName :: string
  withMutations :: bool

definition defaultOpts :: backend where
  "defaultOpts = \<lparr> idAttribute = ''id'', indexById = True, ordered = True,
     arrName = ''items'', mapName = ''itemsById'', withMutations = False \<rparr>"

text \<open>
  What the code calls but does not define: a function value applied to an argument
  (a patcher passed to \<^verbatim>\<open>update\<close>), lodash's \<^verbatim>\<open>sortByOrder\<close>, which returns the
  elements of a collection in sorted order, and \<^verbatim>\<open>normalizeEntity\<close> of ./utils, which
  replaces an entity passed as a field value by its identifier. They are parameters of
  the model.
\<close>

record env =
  call :: "nat \<Rightarrow> val \<Rightarrow> heap \<Rightarrow> (val \<times> heap) option"
  sortByOrder :: "heap \<Rightarrow> val \<Rightarrow> val \<Rightarrow> val \<Rightarrow> val list"
  normalizeEntity :: "heap \<Rightarrow> val \<Rightarrow> val"

text \<open>lodash \<^verbatim>\<open>find(collection, {[key]: v})\<close>: the first element that is an object with
  property \<^verbatim>\<open>key\<close> equal to \<^verbatim>\<open>v\<close>, else \<^verbatim>\<open>undefined\<close>; it does not throw.\<close>

definition lodash_matches :: "heap \<Rightarrow> string \<Rightarrow> val \<Rightarrow> val \<Rightarrow> bool" where
  "lodash_matches h k v e = (case load h e of
       Some (Obj ps) \<Rightarrow> (case map_of ps k of Some x \<Rightarrow> x = v | None \<Rightarrow> False)
     | _ \<Rightarrow> False)"

definition lodash_find :: "heap \<Rightarrow> val \<Rightarrow> string \<Rightarrow> val \<Rightarrow> val" where
  "lodash_find h coll k v =
     (case find (lodash_matches h k v) (map snd (own_props h coll)) of
        Some e \<Rightarrow> e
      | None \<Rightarrow> Undefined)"

text \<open>\<^verbatim>\<open>accessId(branch, id)\<close>\<close>

definition Backend_accessId :: "backend \<Rightarrow> val \<Rightarrow> val \<Rightarrow> heap \<Rightarrow> val option" where
  "Backend_accessId b branch i h =
     (if indexById b then do {
        m \<leftarrow> get_prop h branch (mapName b);
        get_prop h m (key_of i)
      } else do {
        a \<leftarrow> get_prop h branch (arrName b);
        Some (lodash_find h a (idAttribute b) i)
      })"

text \<open>\<^verbatim>\<open>accessIdList(branch)\<close>\<close>

definition Backend_accessIdList :: "backend \<Rightarrow> val \<Rightarrow> heap \<Rightarrow> val option" where
  "Backend_accessIdList b branch h = get_prop h branch (arrName b)"

text \<open>\<^verbatim>\<open>accessList(branch)\<close>: one new object per element of the order array, the
  identifier first and the stored record's properties assigned over it.\<close>

fun accessList_map :: "backend \<Rightarrow> val \<Rightarrow> val list \<Rightarrow> heap \<Rightarrow> (val list \<times> heap) option" where
  "accessList_map b branch [] h = Some ([], h)"
| "accessList_map b branch (i # ids) h = do {
     obj \<leftarrow> Backend_accessId b branch i h;
     let (r, h1) = alloc (Obj (assign [(idAttribute b, i)] (own_props h obj))) h;
     (rs, h2) \<leftarrow> accessList_map b branch ids h1;
     Some (r # rs, h2)
   }"

definition Backend_accessList :: "backend \<Rightarrow> val \<Rightarrow> heap \<Rightarrow> (val \<times> heap) option" where
  "Backend_accessList b branch h = do {
     a \<leftarrow> get_prop h branch (arrName b);
     xs \<leftarrow> get_arr h a;
     (rs, h1) \<leftarrow> accessList_map b branch xs h;
     Some (alloc (Arr rs) h1)
   }"

text \<open>\<^verbatim>\<open>getDefaultState()\<close>\<close>

definition Backend_getDefaultState :: "backend \<Rightarrow> heap \<Rightarrow> val \<times> heap" where
  "Backend_getDefaultState b h =
     (if indexById b then
        (let (a, h1) = alloc (Arr []) h;
             (m, h2) = alloc (Obj []) h1
         in alloc (Obj (assign [] [(arrName b, a), (mapName b, m)])) h2)
      else
        (let (a, h1) = alloc (Arr []) h
         in alloc (Obj [(arrName b, a)]) h1))"

text \<open>\<^verbatim>\<open>const returnBranch = this.withMutations ? branch : {}\<close>\<close>

definition returnBranch :: "backend \<Rightarrow> val \<Rightarrow> heap \<Rightarrow> val \<times> heap" where
  "returnBranch b branch h = (if withMutations b then (branch, h) else alloc (Obj []) h)"

text \<open>\<^verbatim>\<open>order(branch, iteratees, orders)\<close>\<close>

definition Backend_order :: "env \<Rightarrow> backend \<Rightarrow> val \<Rightarrow> val \<Rightarrow> val \<Rightarrow> heap \<Rightarrow> (val \<times> heap) option" where
  "Backend_order e b branch iteratees orders h =
     (let (rb, h0) = returnBranch b branch h in
      if indexById b then do {
        h1 \<leftarrow> (if withMutations b then Some h0
               else do { m \<leftarrow> get_prop h0 branch (mapName b); set_prop h0 rb (mapName b) m });
        (fullList, h2) \<leftarrow> Backend_accessList b branch h1;
        ids \<leftarrow> those (map (\<lambda>obj. get_prop h2 obj (idAttribute b))
                 (sortByOrder e h2 fullList iteratees orders));
        let (na, h3) = alloc (Arr ids) h2;
        h4 \<leftarrow> set_prop h3 rb (arrName b) na;
        Some (rb, h4)
      } else do {
        a \<leftarrow> get_prop h0 branch (arrName b);
        let (na, h1) = alloc (Arr (sortByOrder e h0 a iteratees orders)) h0;
        h2 \<leftarrow> set_prop h1 rb (arrName b) na;
        Some (rb, h2)
      })"

text \<open>\<^verbatim>\<open>insert(branch, entry)\<close>\<close>

definition Backend_insert :: "backend \<Rightarrow> val \<Rightarrow> val \<Rightarrow> heap \<Rightarrow> (val \<times> heap) option" where
  "Backend_insert b branch entry h =
     (if indexById b then do {
        i \<leftarrow> get_prop h entry (idAttribute b);
        if withMutations b then do {
          a \<leftarrow> get_prop h branch (arrName b);
          h1 \<leftarrow> arr_push h a i;
          m \<leftarrow> get_prop h1 branch (mapName b);
          h2 \<leftarrow> set_prop h1 m (key_of i) entry;
          Some (branch, h2)
        } else do {
          a \<leftarrow> get_prop h branch (arrName b);
          xs \<leftarrow> get_arr h a;
          let (na, h1) = alloc (Arr (arr_concat h xs i)) h;
          m \<leftarrow> get_prop h1 branch (mapName b);
          let (nm, h2) = alloc (Obj (assign (assign [] (own_props h1 m)) [(key_of i, entry)])) h1;
          Some (alloc (Obj (assign [] [(arrName b, na), (mapName b, nm)])) h2)
        }
      } else if withMutations b then do {
        a \<leftarrow> get_prop h branch (arrName b);
        h1 \<leftarrow> arr_push h a entry;
        Some (branch, h1)
      } else do {
        a \<leftarrow> get_prop h branch (arrName b);
        xs \<leftarrow> get_arr h a;
        let (na, h1) = alloc (Arr (arr_concat h xs entry)) h;
        Some (alloc (Obj [(arrName b, na)]) h1)
      })"

subsection \<open>update\<close>

text \<open>
  Modelled from the spec: \<^verbatim>\<open>objectDiff\<close> of ./utils, which is not among the sources. A
  record is replaced by "a shallow merge of the record and patcher ... only if the result
  differs from the current value": the result is the properties of the source that the
  target does not already hold with a strictly equal value, and \<open>None\<close> (\<^verbatim>\<open>null\<close>)
  when there is none.
\<close>

definition objectDiff :: "heap \<Rightarrow> val \<Rightarrow> props \<Rightarrow> props option" where
  "objectDiff h target src =
     (let d = filter (\<lambda>(k, v). case map_of (own_props h target) k of
                                   Some x \<Rightarrow> \<not> strict_eq x v
                                 | None \<Rightarrow> True) src
      in if d = [] then None else Some d)"

text \<open>
  \<^verbatim>\<open>mapFunction\<close>: the patcher itself when it is a function, else the merge of the
  patcher's properties over a copy of the entity, or the entity itself when nothing
  differs.
\<close>

definition mapFunction :: "env \<Rightarrow> val \<Rightarrow> val \<Rightarrow> heap \<Rightarrow> (val \<times> heap) option" where
  "mapFunction e patcher entity h = (case patcher of
       Fn f \<Rightarrow> call e f entity h
     | _ \<Rightarrow> (case objectDiff h entity (own_props h patcher) of
           Some d \<Rightarrow> Some (alloc (Obj (assign (assign [] (own_props h entity)) (own_props h patcher))) h)
         | None \<Rightarrow> Some (entity, h)))"

text \<open>The \<^verbatim>\<open>idArr.reduce\<close> of the indexed form: \<open>umap\<close> is \<^verbatim>\<open>updatedMap\<close>.\<close>

fun update_reduce :: "env \<Rightarrow> backend \<Rightarrow> val \<Rightarrow> val \<Rightarrow> val list \<Rightarrow> props \<Rightarrow> heap \<Rightarrow> (props \<times> heap) option" where
  "update_reduce e b branch patcher [] umap h = Some (umap, h)"
| "update_reduce e b branch patcher (i # ids) umap h = do {
     m \<leftarrow> get_prop h branch (mapName b);
     old \<leftarrow> get_prop h m (key_of i);
     (result, h1) \<leftarrow> mapFunction e patcher old h;
     m1 \<leftarrow> get_prop h1 branch (mapName b);
     old1 \<leftarrow> get_prop h1 m1 (key_of i);
     update_reduce e b branch patcher ids
       (if strict_eq result old1 then umap else AList.update (key_of i) result umap) h1
   }"

text \<open>The \<^verbatim>\<open>branch[arrName].map\<close> of the flat form; the flag is \<^verbatim>\<open>updated\<close>. The
  source calls \<^verbatim>\<open>mapFunction\<close> twice on an affected entity and returns the second
  result.\<close>

fun update_map :: "env \<Rightarrow> backend \<Rightarrow> val \<Rightarrow> val \<Rightarrow> val list \<Rightarrow> heap \<Rightarrow> (val list \<times> bool \<times> heap) option" where
  "update_map e b idArr patcher [] h = Some ([], False, h)"
| "update_map e b idArr patcher (entity # es) h = do {
     ids \<leftarrow> get_arr h idArr;
     i \<leftarrow> get_prop h entity (idAttribute b);
     if arr_includes ids i then do {
       (result, h1) \<leftarrow> mapFunction e patcher entity h;
       (result2, h2) \<leftarrow> mapFunction e patcher entity h1;
       (ys, u, h3) \<leftarrow> update_map e b idArr patcher es h2;
       Some (result2 # ys, (if strict_eq entity result then u else True), h3)
     } else do {
       (ys, u, h3) \<leftarrow> update_map e b idArr patcher es h;
       Some (entity # ys, u, h3)
     }
   }"

text \<open>The block under \<^verbatim>\<open>if (!this.withMutations)\<close> of the indexed form: the new
  state gets a shallow copy of the index map and the order array itself.\<close>

definition update_prepare :: "backend \<Rightarrow> val \<Rightarrow> val \<Rightarrow> heap \<Rightarrow> heap option" where
  "update_prepare b branch rb h0 =
     (if withMutations b then Some h0
      else do {
        m \<leftarrow> get_prop h0 branch (mapName b);
        let (mc, h01) = alloc (Obj (assign [] (own_props h0 m))) h0;
        h02 \<leftarrow> set_prop h01 rb (mapName b) mc;
        a \<leftarrow> get_prop h02 branch (arrName b);
        set_prop h02 rb (arrName b) a
      })"

text \<open>\<^verbatim>\<open>update(branch, idArr, patcher)\<close>\<close>

definition Backend_update :: "env \<Rightarrow> backend \<Rightarrow> val \<Rightarrow> val \<Rightarrow> val \<Rightarrow> heap \<Rightarrow> (val \<times> heap) option" where
  "Backend_update e b branch idArr patcher h =
     (let (rb, h0) = returnBranch b branch h in
      if indexById b then do {
        h1 \<leftarrow> update_prepare b branch rb h0;
        ids \<leftarrow> get_arr h1 idArr;
        (umap, h2) \<leftarrow> update_reduce e b branch patcher ids [] h1;
        rm \<leftarrow> get_prop h2 rb (mapName b);
        (case objectDiff h2 rm umap of
           Some d \<Rightarrow> do { h3 \<leftarrow> assign_into h2 rm d; Some (rb, h3) }
         | None \<Rightarrow> Some (branch, h2))
      } else do {
        a \<leftarrow> get_prop h0 branch (arrName b);
        xs \<leftarrow> get_arr h0 a;
        (ys, updated, h1) \<leftarrow> update_map e b idArr patcher xs h0;
        let (na, h2) = alloc (Arr ys) h1;
        h3 \<leftarrow> set_prop h2 rb (arrName b) na;
        Some (if updated then rb else branch, h3)
      })"

subsection \<open>delete\<close>

text \<open>\<^verbatim>\<open>arr.splice(idx, 1)\<close> at a found index, and \<^verbatim>\<open>arr.splice(-1, 1)\<close>, which removes
  the last element.\<close>

definition splice1 :: "nat \<Rightarrow> val list \<Rightarrow> val list" where
  "splice1 idx xs = take idx xs @ drop (Suc idx) xs"

definition splice_last :: "val list \<Rightarrow> val list" where
  "splice_last xs = butlast xs"

text \<open>lodash \<^verbatim>\<open>omit(object, props)\<close>: a new object without the keys \<^verbatim>\<open>String(p)\<close>; a
  \<^verbatim>\<open>props\<close> argument that is not an array is one key.\<close>

definition lodash_omit :: "heap \<Rightarrow> val \<Rightarrow> val \<Rightarrow> props" where
  "lodash_omit h obj ps =
     (let ks = (case get_arr h ps of Some ids \<Rightarrow> map key_of ids | None \<Rightarrow> [key_of ps])
      in filter (\<lambda>(k, v). k \<notin> set ks) (own_props h obj))"

text \<open>The \<^verbatim>\<open>idsToDelete.forEach\<close> of the indexed form, mutating in place.\<close>

fun delete_each_indexed :: "backend \<Rightarrow> val \<Rightarrow> val \<Rightarrow> val list \<Rightarrow> heap \<Rightarrow> heap option" where
  "delete_each_indexed b branch arr [] h = Some h"
| "delete_each_indexed b branch arr (i # ids) h = do {
     xs \<leftarrow> get_arr h arr;
     h1 \<leftarrow> (case indexOf xs i of
              Some idx \<Rightarrow> store h arr (Arr (splice1 idx xs))
            | None \<Rightarrow> Some h);
     m \<leftarrow> get_prop h1 branch (mapName b);
     h2 \<leftarrow> delete_prop h1 m (key_of i);
     delete_each_indexed b branch arr ids h2
   }"

text \<open>The \<^verbatim>\<open>idsToDelete.forEach\<close> of the flat form, mutating in place: the source
  splices when \<^verbatim>\<open>idx === -1\<close>.\<close>

fun delete_each_flat :: "val \<Rightarrow> val list \<Rightarrow> heap \<Rightarrow> heap option" where
  "delete_each_flat arr [] h = Some h"
| "delete_each_flat arr (i # ids) h = do {
     xs \<leftarrow> get_arr h arr;
     h1 \<leftarrow> (case indexOf xs i of
              None \<Rightarrow> store h arr (Arr (splice_last xs))
            | Some idx \<Rightarrow> Some h);
     delete_each_flat arr ids h1
   }"

text \<open>\<^verbatim>\<open>arr.filter(id => !idsToDelete.includes(id))\<close>; \<^verbatim>\<open>idsToDelete\<close> is read at each
  element.\<close>

fun filter_ids :: "heap \<Rightarrow> val \<Rightarrow> val list \<Rightarrow> val list option" where
  "filter_ids h idsToDelete [] = Some []"
| "filter_ids h idsToDelete (i # xs) = do {
     ids \<leftarrow> get_arr h idsToDelete;
     ys \<leftarrow> filter_ids h idsToDelete xs;
     Some (if arr_includes ids i then ys else i # ys)
   }"

text \<open>\<^verbatim>\<open>arr.filter(entity => !idsToDelete.includes(entity[idAttribute]))\<close>\<close>

fun filter_entities :: "heap \<Rightarrow> backend \<Rightarrow> val \<Rightarrow> val list \<Rightarrow> val list option" where
  "filter_entities h b idsToDelete [] = Some []"
| "filter_entities h b idsToDelete (entity # xs) = do {
     ids \<leftarrow> get_arr h idsToDelete;
     i \<leftarrow> get_prop h entity (idAttribute b);
     ys \<leftarrow> filter_entities h b idsToDelete xs;
     Some (if arr_includes ids i then ys else entity # ys)
   }"

text \<open>\<^verbatim>\<open>delete(branch, idsToDelete)\<close>\<close>

definition Backend_delete :: "backend \<Rightarrow> val \<Rightarrow> val \<Rightarrow> heap \<Rightarrow> (val \<times> heap) option" where
  "Backend_delete b branch idsToDelete h = do {
     arr \<leftarrow> get_prop h branch (arrName b);
     if indexById b then
       (if withMutations b then do {
          ids \<leftarrow> get_arr h idsToDelete;
          h1 \<leftarrow> delete_each_indexed b branch arr ids h;
          Some (branch, h1)
        } else do {
          a \<leftarrow> get_prop h branch (arrName b);
          xs \<leftarrow> get_arr h a;
          ys \<leftarrow> filter_ids h idsToDelete xs;
          let (na, h1) = alloc (Arr ys) h;
          m \<leftarrow> get_prop h1 branch (mapName b);
          let (nm, h2) = alloc (Obj (lodash_omit h1 m idsToDelete)) h1;
          Some (alloc (Obj (assign [] [(arrName b, na), (mapName b, nm)])) h2)
        })
     else if withMutations b then do {
       ids \<leftarrow> get_arr h idsToDelete;
       h1 \<leftarrow> delete_each_flat arr ids h;
       Some (branch, h1)
     } else do {
       xs \<leftarrow> get_arr h arr;
       ys \<leftarrow> filter_entities h b idsToDelete xs;
       let (na, h1) = alloc (Arr ys) h;
       Some (alloc (Obj [(arrName b, na)]) h1)
     }
   }"

section \<open>Model: the queue of updates and the entity handles\<close>

subsection \<open>Actions, model classes and the session\<close>

text \<open>Modelled from the spec: the action types of ./constants, which is not among the
  sources ("Action: { kind: CREATE|UPDATE|DELETE|ORDER, payload }"); \<open>OTHER\<close> is any
  other \<^verbatim>\<open>type\<close>.\<close>

datatype action_type = CREATE | UPDATE | DELETE | ORDER | OTHER string

record action =
  atype :: action_type
  payload :: val
  meta_name :: string

text \<open>Modelled from the spec: the relation descriptors of ./fields, which is not among
  the sources, with the target model, the reverse name and, for many-to-many, the name
  of the auxiliary (through) model.\<close>

datatype field = ForeignKey string string | OneToOne string string | ManyToMany string string string

text \<open>A model class: its name, the options its backend is built from, its declared
  relations, and the property names that the relation descriptors have defined on the
  prototype (\<^verbatim>\<open>definedProperties\<close>).\<close>

record model =
  modelName :: string
  backendOpts :: backend
  relFields :: "(string \<times> field) list"
  definedProperties :: "string list"

text \<open>
  Modelled from the spec: the session (./Session is not among the sources). It holds the
  state of every model, which \<^verbatim>\<open>getState\<close> reads, and the update queue, "an ordered
  sequence of pending actions"; an enqueue operation "appends to this sequence", and
  \<^verbatim>\<open>getUpdatesFor\<close> gives the pending actions of one model in order. \<open>nextIds\<close> is the
  \<^verbatim>\<open>_sessionCache.nextId\<close> of each model class, absent when undefined.
\<close>

record session =
  states :: "(string \<times> val) list"
  updates :: "action list"
  session_withMutations :: bool
  nextIds :: "(string \<times> val) list"

definition Session_getState :: "session \<Rightarrow> string \<Rightarrow> val" where
  "Session_getState s name = obj_get (states s) name"

definition Session_addUpdate :: "action \<Rightarrow> session \<Rightarrow> session" where
  "Session_addUpdate a s = s \<lparr> updates := updates s @ [a] \<rparr>"

definition Session_getUpdatesFor :: "model \<Rightarrow> session \<Rightarrow> action list" where
  "Session_getUpdatesFor m s = filter (\<lambda>a. meta_name a = modelName m) (updates s)"


text \<open>\<^verbatim>\<open>static get state()\<close>\<close>

definition Model_state :: "model \<Rightarrow> session \<Rightarrow> val" where
  "Model_state m s = Session_getState s (modelName m)"

text \<open>\<^verbatim>\<open>getBackend()\<close>: the options of the class, with \<^verbatim>\<open>withMutations\<close> set when the
  session mutates.\<close>

definition Model_getBackend :: "model \<Rightarrow> session \<Rightarrow> backend" where
  "Model_getBackend m s =
     (if session_withMutations s then (backendOpts m) \<lparr> withMutations := True \<rparr>
      else backendOpts m)"

text \<open>\<^verbatim>\<open>addUpdate(update)\<close>\<close>

definition Model_addUpdate :: "model \<Rightarrow> action_type \<Rightarrow> val \<Rightarrow> session \<Rightarrow> session" where
  "Model_addUpdate m ty pl s =
     Session_addUpdate \<lparr> atype = ty, payload = pl, meta_name = modelName m \<rparr> s"

text \<open>\<^verbatim>\<open>getDefaultState()\<close>, \<^verbatim>\<open>accessId(id)\<close>, \<^verbatim>\<open>accessIds()\<close>\<close>

definition Model_getDefaultState :: "model \<Rightarrow> session \<Rightarrow> heap \<Rightarrow> val \<times> heap" where
  "Model_getDefaultState m s h = Backend_getDefaultState (Model_getBackend m s) h"

definition Model_accessId :: "model \<Rightarrow> val \<Rightarrow> session \<Rightarrow> heap \<Rightarrow> val option" where
  "Model_accessId m i s h = Backend_accessId (Model_getBackend m s) (Model_state m s) i h"

definition Model_accessIds :: "model \<Rightarrow> session \<Rightarrow> heap \<Rightarrow> val option" where
  "Model_accessIds m s h = Backend_accessIdList (Model_getBackend m s) (Model_state m s) h"

subsection \<open>Applying the queue\<close>

text \<open>\<^verbatim>\<open>updateReducer(state, action)\<close>; \<^verbatim>\<open>order\<close> is called with the payload alone.\<close>

definition updateReducer :: "env \<Rightarrow> backend \<Rightarrow> val \<Rightarrow> action \<Rightarrow> heap \<Rightarrow> (val \<times> heap) option" where
  "updateReducer e b state a h = (case atype a of
       CREATE \<Rightarrow> Backend_insert b state (payload a) h
     | UPDATE \<Rightarrow> do {
         idArr \<leftarrow> get_prop h (payload a) ''idArr'';
         updater \<leftarrow> get_prop h (payload a) ''updater'';
         Backend_update e b state idArr updater h
       }
     | ORDER \<Rightarrow> Backend_order e b state (payload a) Undefined h
     | DELETE \<Rightarrow> Backend_delete b state (payload a) h
     | OTHER t \<Rightarrow> Some (state, h))"

text \<open>\<^verbatim>\<open>updates.reduce(this.updateReducer.bind(this), this.state)\<close>\<close>

fun reduce_updates :: "env \<Rightarrow> backend \<Rightarrow> action list \<Rightarrow> val \<Rightarrow> heap \<Rightarrow> (val \<times> heap) option" where
  "reduce_updates e b [] state h = Some (state, h)"
| "reduce_updates e b (a # as) state h = do {
     (state', h') \<leftarrow> updateReducer e b state a h;
     reduce_updates e b as state' h'
   }"

text \<open>\<^verbatim>\<open>getNextState()\<close>\<close>

definition Model_getNextState :: "env \<Rightarrow> model \<Rightarrow> session \<Rightarrow> heap \<Rightarrow> (val \<times> heap) option" where
  "Model_getNextState e m s h =
     (if Model_state m s = Undefined then Some (Model_getDefaultState m s h)
      else reduce_updates e (Model_getBackend m s) (Session_getUpdatesFor m s) (Model_state m s) h)"

subsection \<open>Entity handles\<close>

text \<open>
  A \<^verbatim>\<open>Model\<close> instance: \<^verbatim>\<open>_fields\<close> is the props value itself, \<^verbatim>\<open>_fieldNames\<close> its
  own keys, and for each own key that no relation descriptor has defined the instance
  gets an accessor whose getter returns the value the field had when the instance was
  built. \<open>accessors\<close> holds these captured values.
\<close>

record handle =
  h_fields :: val
  fieldNames :: "string list"
  accessors :: props

text \<open>\<^verbatim>\<open>new ModelClass(props)\<close>, that is \<^verbatim>\<open>_initFields(props)\<close>; \<^verbatim>\<open>forOwn\<close> visits
  nothing when \<^verbatim>\<open>props\<close> is undefined. The assignment
  \<^verbatim>\<open>this._fields[fieldName] = fieldValue\<close> of the loop writes each field of \<^verbatim>\<open>props\<close> back
  with the value it has, so the heap is not changed.\<close>

definition initFields :: "model \<Rightarrow> val \<Rightarrow> heap \<Rightarrow> handle" where
  "initFields m props h =
     \<lparr> h_fields = props,
       fieldNames = map fst (own_props h props),
       accessors = filter (\<lambda>(k, v). k \<notin> set (definedProperties m)) (own_props h props) \<rparr>"

text \<open>Reading \<^verbatim>\<open>instance[fieldName]\<close> through the accessor that \<^verbatim>\<open>_initFields\<close> defined;
  \<open>None\<close> when it defined none for this name.\<close>

definition read_field :: "handle \<Rightarrow> string \<Rightarrow> val option" where
  "read_field inst k = map_of (accessors inst) k"

text \<open>\<^verbatim>\<open>getId()\<close>\<close>

definition getId :: "backend \<Rightarrow> handle \<Rightarrow> heap \<Rightarrow> val option" where
  "getId b inst h = get_prop h (h_fields inst) (idAttribute b)"

text \<open>The \<^verbatim>\<open>set\<close> function of the accessor that \<^verbatim>\<open>_initFields\<close> defines for
  \<open>fieldName\<close>: it enqueues an UPDATE action whose payload is
  \<^verbatim>\<open>{[idAttribute]: this.getId(), [fieldName]: value}\<close>.\<close>

definition field_setter :: "model \<Rightarrow> handle \<Rightarrow> string \<Rightarrow> val \<Rightarrow> session \<Rightarrow> heap \<Rightarrow> (session \<times> heap) option" where
  "field_setter m inst fieldName v s h = do {
     i \<leftarrow> getId (Model_getBackend m s) inst h;
     let (pl, h1) = alloc (Obj (assign [] [(idAttribute (Model_getBackend m s), i), (fieldName, v)])) h;
     Some (Model_addUpdate m UPDATE pl s, h1)
   }"

text \<open>\<^verbatim>\<open>withId(id)\<close>\<close>

definition Model_withId :: "model \<Rightarrow> val \<Rightarrow> session \<Rightarrow> heap \<Rightarrow> handle option" where
  "Model_withId m i s h = do {
     props \<leftarrow> Model_accessId m i s h;
     Some (initFields m props h)
   }"

subsection \<open>get\<close>

datatype error = TypeError | NoEntitiesFound | InstanceNotFound

text \<open>The truth value of a JavaScript value, for \<^verbatim>\<open>!this.accessIds().length\<close>.\<close>

definition truthy :: "val \<Rightarrow> bool" where
  "truthy v = (case v of
       Undefined \<Rightarrow> False | Null \<Rightarrow> False | NaN \<Rightarrow> False
     | Num n \<Rightarrow> n \<noteq> 0 | Str s \<Rightarrow> s \<noteq> [] | Fn f \<Rightarrow> True | Ref r \<Rightarrow> True)"

text \<open>\<^verbatim>\<open>obj.hasOwnProperty(k)\<close> on a value; a TypeError on undefined and null.\<close>

definition has_own :: "heap \<Rightarrow> val \<Rightarrow> string \<Rightarrow> bool option" where
  "has_own h v k = (case v of
       Undefined \<Rightarrow> None
     | Null \<Rightarrow> None
     | _ \<Rightarrow> Some (hasOwnProperty (own_props h v) k))"

text \<open>
  Modelled from the spec: \<^verbatim>\<open>match\<close> of ./utils, which is not among the sources. The
  "pattern form matches when every key in the pattern is equal to the corresponding
  record field". A value that is not a record matches no pattern.
\<close>

definition match :: "heap \<Rightarrow> val \<Rightarrow> val \<Rightarrow> bool" where
  "match h lookupObj v = (case get_obj h v of
       Some ps \<Rightarrow> list_all (\<lambda>(k, x). strict_eq (obj_get ps k) x) (own_props h lookupObj)
     | None \<Rightarrow> False)"

text \<open>
  Modelled from the spec: \<^verbatim>\<open>ListIterator\<close> of ./utils, which is not among the sources,
  is "an iterator that loops through the objects in branch" (the comment of
  \<^verbatim>\<open>Backend.iterator\<close>): \<^verbatim>\<open>next()\<close> yields the value of each element of the list in
  order, not done, and then reports done without a value. \<open>iterator_value\<close> is the
  \<^verbatim>\<open>getValue\<close> function that \<^verbatim>\<open>iterator(branch)\<close> passes: the record under the
  element's key in indexed form, the element itself in flat form.
\<close>

definition iterator_value :: "backend \<Rightarrow> val \<Rightarrow> val \<Rightarrow> heap \<Rightarrow> val option" where
  "iterator_value b branch x h =
     (if indexById b then do {
        m \<leftarrow> get_prop h branch (mapName b);
        get_prop h m (key_of x)
      } else Some x)"

text \<open>The \<^verbatim>\<open>while (!done)\<close> loop of \<^verbatim>\<open>get\<close> over the elements the iterator has left.\<close>

fun get_loop :: "model \<Rightarrow> backend \<Rightarrow> val \<Rightarrow> val \<Rightarrow> heap \<Rightarrow> val list \<Rightarrow> error + handle" where
  "get_loop m b branch lookupObj h [] =
     (if match h lookupObj Undefined then Inr (initFields m Undefined h)
      else Inl InstanceNotFound)"
| "get_loop m b branch lookupObj h (x # xs) =
     (case iterator_value b branch x h of
        None \<Rightarrow> Inl TypeError
      | Some v \<Rightarrow>
          if match h lookupObj v then Inr (initFields m v h)
          else get_loop m b branch lookupObj h xs)"

text \<open>\<^verbatim>\<open>get(lookupObj)\<close>\<close>

definition Model_get :: "model \<Rightarrow> val \<Rightarrow> session \<Rightarrow> heap \<Rightarrow> error + handle" where
  "Model_get m lookupObj s h =
     (let b = Model_getBackend m s; branch = Model_state m s in
      case Model_accessIds m s h \<bind> (\<lambda>ids. get_prop h ids ''length'') of
        None \<Rightarrow> Inl TypeError
      | Some len \<Rightarrow>
          if \<not> truthy len then Inl NoEntitiesFound
          else (case has_own h lookupObj (idAttribute b) of
              None \<Rightarrow> Inl TypeError
            | Some True \<Rightarrow>
                (case get_prop h lookupObj (idAttribute b) \<bind> (\<lambda>i. Model_accessId m i s h) of
                   None \<Rightarrow> Inl TypeError
                 | Some props \<Rightarrow>
                     if props = Undefined then Inl InstanceNotFound
                     else Inr (initFields m props h))
            | Some False \<Rightarrow>
                (case Backend_accessIdList b branch h \<bind> get_arr h of
                   None \<Rightarrow> Inl TypeError
                 | Some xs \<Rightarrow> get_loop m b branch lookupObj h xs)))"

subsection \<open>Identifier assignment and create\<close>

text \<open>
  A \<open>Num n\<close> is the JavaScript number whose value is the integer \<open>n\<close>. A number is a
  double: it holds every integer of magnitude up to \<open>2 ^ 53\<close> and, beyond that, the
  integers with 53 significant bits. \<open>to_double\<close> rounds an integer to the nearest one
  that a double holds, a tie to the one whose significand is even, as an addition of
  numbers and the reading of a numeral do; \<open>spacing n\<close> is the distance between the
  doubles around \<open>n\<close>. Numbers that are not integers, and the infinities, are not values
  of this model.
\<close>

function spacing :: "int \<Rightarrow> int" where
  "spacing n = (if n < 2 ^ 53 then 1 else 2 * spacing (n div 2))"
  by pat_completeness auto
termination
  by (relation "measure nat") auto

declare spacing.simps [simp del]

definition to_double :: "int \<Rightarrow> int" where
  "to_double i =
     (let n = \<bar>i\<bar>; q = spacing n; m = n div q; r = n mod q;
          m' = (if q < 2 * r \<or> (2 * r = q \<and> odd m) then m + 1 else m)
      in sgn i * (m' * q))"

text \<open>
  \<^verbatim>\<open>ToNumber\<close> of a string: white space around it is dropped, the empty string is 0, a
  decimal numeral with an optional sign is its value, rounded to a double. A string that
  writes a number in another notation (a fraction, an exponent, a hexadecimal, octal or
  binary numeral, \<^verbatim>\<open>Infinity\<close>) is not an identifier this library assigns; it counts as
  a string that is no numeral, which is NaN (\<open>None\<close>).
\<close>

definition is_space :: "char \<Rightarrow> bool" where
  "is_space c \<longleftrightarrow> c \<in> set [CHR 0x09, CHR 0x0A, CHR 0x0B, CHR 0x0C, CHR 0x0D, CHR 0x20, CHR 0xA0]"

definition trim :: "string \<Rightarrow> string" where
  "trim s = rev (dropWhile is_space (rev (dropWhile is_space s)))"

definition digit_val :: "char \<Rightarrow> int option" where
  "digit_val c =
     (if (48::int) \<le> of_char c \<and> of_char c \<le> (57::int) then Some (of_char c - 48) else None)"

definition decimal :: "string \<Rightarrow> int option" where
  "decimal ds =
     (if ds = [] then None
      else map_option (\<lambda>vs. to_double (foldl (\<lambda>a d. 10 * a + d) 0 vs))
             (those (map digit_val ds)))"

definition string_to_number :: "string \<Rightarrow> int option" where
  "string_to_number s = (case trim s of
       [] \<Rightarrow> Some 0
     | c # ds \<Rightarrow>
         if c = CHR ''-'' then map_option uminus (decimal ds)
         else if c = CHR ''+'' then decimal ds
         else decimal (c # ds))"

text \<open>
  \<^verbatim>\<open>ToPrimitive\<close>: an object or a function becomes the string that \<open>key_of\<close> gives it.
  \<^verbatim>\<open>ToNumber\<close>: a number is itself, \<^verbatim>\<open>null\<close> is 0, a string is read as a numeral, and
  \<^verbatim>\<open>undefined\<close> and NaN give NaN (\<open>None\<close>).
\<close>

definition to_primitive :: "val \<Rightarrow> val" where
  "to_primitive v = (case v of Ref r \<Rightarrow> Str (key_of v) | Fn f \<Rightarrow> Str (key_of v) | _ \<Rightarrow> v)"

definition to_number :: "val \<Rightarrow> int option" where
  "to_number v = (case to_primitive v of
       Num n \<Rightarrow> Some n
     | Null \<Rightarrow> Some 0
     | Str s \<Rightarrow> string_to_number s
     | _ \<Rightarrow> None)"

text \<open>\<^verbatim>\<open>Math.max(...xs)\<close> for a list that is not empty (the source calls it on no
  other): the greatest of the numbers of its arguments, NaN when one of them is NaN.\<close>

definition Math_max :: "val list \<Rightarrow> val" where
  "Math_max xs = (case those (map to_number xs) of
       Some (n # ns) \<Rightarrow> Num (fold max ns n)
     | _ \<Rightarrow> NaN)"

text \<open>\<^verbatim>\<open>v++\<close> stores the number of \<^verbatim>\<open>v\<close> plus one.\<close>

definition js_incr :: "val \<Rightarrow> val" where
  "js_incr v = (case to_number v of Some n \<Rightarrow> Num (to_double (n + 1)) | None \<Rightarrow> NaN)"

text \<open>\<^verbatim>\<open>v + 1\<close>: when \<^verbatim>\<open>v\<close> is a string, or an object, the string followed by the
  character 1; otherwise the sum of numbers.\<close>

definition js_add1 :: "val \<Rightarrow> val" where
  "js_add1 v = (case to_primitive v of Str s \<Rightarrow> Str (s @ ''1'') | p \<Rightarrow> js_incr p)"

text \<open>The order of two strings by their characters: \<open>str_lt x y\<close> when \<open>x\<close> is a proper
  prefix of \<open>y\<close> or has the smaller character at the first place where they differ.\<close>

fun str_lt :: "string \<Rightarrow> string \<Rightarrow> bool" where
  "str_lt [] [] = False"
| "str_lt [] (y # ys) = True"
| "str_lt (x # xs) [] = False"
| "str_lt (x # xs) (y # ys) = (if x = y then str_lt xs ys else (of_char x :: int) < of_char y)"

text \<open>\<^verbatim>\<open>a > b\<close>: two strings are compared as strings, any other two values as numbers,
  and a comparison with NaN is false.\<close>

definition js_gt :: "val \<Rightarrow> val \<Rightarrow> bool" where
  "js_gt a b = (case (to_primitive a, to_primitive b) of
       (Str x, Str y) \<Rightarrow> str_lt y x
     | (p, q) \<Rightarrow> (case (to_number p, to_number q) of (Some x, Some y) \<Rightarrow> y < x | _ \<Rightarrow> False))"

definition cache_nextId :: "model \<Rightarrow> session \<Rightarrow> val" where
  "cache_nextId m s = obj_get (nextIds s) (modelName m)"

definition set_cache_nextId :: "model \<Rightarrow> val \<Rightarrow> session \<Rightarrow> session" where
  "set_cache_nextId m v s = s \<lparr> nextIds := AList.update (modelName m) v (nextIds s) \<rparr>"

text \<open>\<^verbatim>\<open>nextId()\<close>: the cached value, computed from the identifiers of the state when
  the cache is undefined.\<close>

definition Model_nextId :: "model \<Rightarrow> session \<Rightarrow> heap \<Rightarrow> (val \<times> session) option" where
  "Model_nextId m s h =
     (if cache_nextId m s = Undefined then do {
        idArr \<leftarrow> Model_accessIds m s h;
        len \<leftarrow> get_prop h idArr ''length'';
        if strict_eq len (Num 0) then Some (Num 0, set_cache_nextId m (Num 0) s)
        else do {
          xs \<leftarrow> get_arr h idArr;
          Some (js_add1 (Math_max xs), set_cache_nextId m (js_add1 (Math_max xs)) s)
        }
      } else Some (cache_nextId m s, s))"

text \<open>
  The \<^verbatim>\<open>forOwn(userProps, ...)\<close> of \<^verbatim>\<open>create\<close>: every value is normalized into
  \<^verbatim>\<open>props\<close>; an array given for a many-to-many field is kept aside in \<open>m2m\<close> and
  deleted from \<^verbatim>\<open>props\<close>.
\<close>

definition is_m2m :: "model \<Rightarrow> string \<Rightarrow> bool" where
  "is_m2m m k = (case map_of (relFields m) k of Some (ManyToMany t r thr) \<Rightarrow> True | _ \<Rightarrow> False)"

fun create_forOwn :: "env \<Rightarrow> model \<Rightarrow> val \<Rightarrow> props \<Rightarrow> props \<Rightarrow> heap \<Rightarrow> (props \<times> heap) option" where
  "create_forOwn e m props [] m2m h = Some (m2m, h)"
| "create_forOwn e m props ((k, v) # kvs) m2m h = do {
     h1 \<leftarrow> set_prop h props k (normalizeEntity e h v);
     if get_arr h1 v \<noteq> None \<and> is_m2m m k then do {
       h2 \<leftarrow> delete_prop h1 props k;
       create_forOwn e m props kvs (AList.update k v m2m) h2
     } else create_forOwn e m props kvs m2m h1
   }"

text \<open>\<^verbatim>\<open>create(userProps)\<close> up to and including \<^verbatim>\<open>new ModelClass(props)\<close>: the result
  is the instance, the many-to-many values kept aside, the session and the heap.\<close>

definition create_instance :: "env \<Rightarrow> model \<Rightarrow> val \<Rightarrow> session \<Rightarrow> heap \<Rightarrow> (handle \<times> props \<times> session \<times> heap) option" where
  "create_instance e m userProps s h =
     (let idAttr = idAttribute (Model_getBackend m s);
          (props, h1) = alloc (Obj (assign [] (own_props h userProps))) h
      in do {
        (s2, h2) \<leftarrow>
          (if \<not> hasOwnProperty (own_props h1 props) idAttr then do {
             (n, s1) \<leftarrow> Model_nextId m s h1;
             h2 \<leftarrow> set_prop h1 props idAttr n;
             Some (set_cache_nextId m (js_incr (cache_nextId m s1)) s1, h2)
           } else do {
             i \<leftarrow> get_prop h1 props idAttr;
             (n, s1) \<leftarrow> Model_nextId m s h1;
             Some (if js_gt i n then set_cache_nextId m (js_add1 i) s1 else s1, h1)
           });
        (m2m, h3) \<leftarrow> create_forOwn e m props (own_props h2 userProps) [] h2;
        Some (initFields m props h3, m2m, Model_addUpdate m CREATE props s2, h3)
      })"

subsection \<open>Many-to-many relations\<close>

text \<open>
  Modelled from the spec: the many-to-many accessor of ./fields, which is not among the
  sources. A many-to-many relation is "an auxiliary store of (sourceId, targetId) pairs
  ... with its own Record Store instance"; the forward accessor is the view of "pairs
  where sourceId equals the current entity's id, projected to the target store". Its
  \<^verbatim>\<open>add\<close> and \<^verbatim>\<open>remove\<close> normalize "each argument to an identifier", compute "a
  set-difference against the current related identifier set", and enqueue "CREATE/DELETE
  actions against the auxiliary store for the rows that must be added/removed": one
  batched DELETE for the rows to remove, one CREATE with an auto-assigned identifier for
  each row to add.
\<close>

definition through_model :: "string \<Rightarrow> model" where
  "through_model name =
     \<lparr> modelName = name, backendOpts = defaultOpts, relFields = [], definedProperties = [] \<rparr>"

text \<open>Modelled from the spec: the rows of the auxiliary store whose source is \<open>sid\<close>, in
  store order, as pairs of the row's identifier and its target.\<close>

fun m2m_scan :: "backend \<Rightarrow> val \<Rightarrow> heap \<Rightarrow> val \<Rightarrow> val list \<Rightarrow> (val \<times> val) list option" where
  "m2m_scan b branch h sid [] = Some []"
| "m2m_scan b branch h sid (rid # rids) = do {
     row \<leftarrow> Backend_accessId b branch rid h;
     src \<leftarrow> get_prop h row ''sourceId'';
     tgt \<leftarrow> get_prop h row ''targetId'';
     rest \<leftarrow> m2m_scan b branch h sid rids;
     Some (if strict_eq src sid then (rid, tgt) # rest else rest)
   }"

definition m2m_rows :: "model \<Rightarrow> val \<Rightarrow> session \<Rightarrow> heap \<Rightarrow> (val \<times> val) list option" where
  "m2m_rows thr sid s h = do {
     ids \<leftarrow> Model_accessIds thr s h;
     xs \<leftarrow> get_arr h ids;
     m2m_scan (Model_getBackend thr s) (Model_state thr s) h sid xs
   }"

text \<open>Modelled from the spec: \<^verbatim>\<open>this[key].idArr\<close>, the identifiers currently related to
  \<open>sid\<close>.\<close>

definition m2m_idArr :: "model \<Rightarrow> val \<Rightarrow> session \<Rightarrow> heap \<Rightarrow> val list option" where
  "m2m_idArr thr sid s h = map_option (map snd) (m2m_rows thr sid s h)"

text \<open>Modelled from the spec: \<^verbatim>\<open>this[key].remove(...ids)\<close>, one batched DELETE on the
  auxiliary store for the rows of \<open>sid\<close> whose target is among the identifiers.\<close>

definition m2m_remove :: "env \<Rightarrow> model \<Rightarrow> val \<Rightarrow> val list \<Rightarrow> session \<Rightarrow> heap \<Rightarrow> (session \<times> heap) option" where
  "m2m_remove e thr sid ids s h = do {
     rows \<leftarrow> m2m_rows thr sid s h;
     let (pl, h1) = alloc (Arr (map fst
           (filter (\<lambda>(rid, t). t \<in> set (map (normalizeEntity e h) ids)) rows))) h;
     Some (Model_addUpdate thr DELETE pl s, h1)
   }"

text \<open>Modelled from the spec: \<^verbatim>\<open>this[key].add(...ids)\<close>, one CREATE on the auxiliary
  store for each identifier that is not yet related to \<open>sid\<close>.\<close>

fun m2m_create_rows :: "env \<Rightarrow> model \<Rightarrow> val \<Rightarrow> val list \<Rightarrow> session \<Rightarrow> heap \<Rightarrow> (session \<times> heap) option" where
  "m2m_create_rows e thr sid [] s h = Some (s, h)"
| "m2m_create_rows e thr sid (t # ts) s h = do {
     let (up, h1) = alloc (Obj [(''sourceId'', sid), (''targetId'', t)]) h;
     (inst, m2m, s1, h2) \<leftarrow> create_instance e thr up s h1;
     m2m_create_rows e thr sid ts s1 h2
   }"

definition m2m_add :: "env \<Rightarrow> model \<Rightarrow> val \<Rightarrow> val list \<Rightarrow> session \<Rightarrow> heap \<Rightarrow> (session \<times> heap) option" where
  "m2m_add e thr sid ids s h = do {
     rows \<leftarrow> m2m_rows thr sid s h;
     m2m_create_rows e thr sid
       (filter (\<lambda>t. t \<notin> set (map snd rows)) (map (normalizeEntity e h) ids)) s h
   }"

text \<open>The \<^verbatim>\<open>forOwn(m2mVals, ...)\<close> that ends \<^verbatim>\<open>create\<close>, and \<^verbatim>\<open>create(userProps)\<close>.
  The rows of the auxiliary store are created by \<open>create_instance\<close>: the auxiliary model
  declares no relation, so its \<^verbatim>\<open>create\<close> keeps no many-to-many value aside.\<close>

fun create_m2m :: "env \<Rightarrow> model \<Rightarrow> handle \<Rightarrow> props \<Rightarrow> session \<Rightarrow> heap \<Rightarrow> (session \<times> heap) option" where
  "create_m2m e m inst [] s h = Some (s, h)"
| "create_m2m e m inst ((k, v) # kvs) s h = do {
     xs \<leftarrow> get_arr h v;
     sid \<leftarrow> getId (Model_getBackend m s) inst h;
     (s1, h1) \<leftarrow> (case map_of (relFields m) k of
         Some (ManyToMany t r thr) \<Rightarrow>
           m2m_add e (through_model thr) sid (map (normalizeEntity e h) xs) s h
       | _ \<Rightarrow> Some (s, h));
     create_m2m e m inst kvs s1 h1
   }"

definition Model_create :: "env \<Rightarrow> model \<Rightarrow> val \<Rightarrow> session \<Rightarrow> heap \<Rightarrow> (handle \<times> session \<times> heap) option" where
  "Model_create e m userProps s h = do {
     (inst, m2m, s1, h1) \<leftarrow> create_instance e m userProps s h;
     (s2, h2) \<leftarrow> create_m2m e m inst m2m s1 h1;
     Some (inst, s2, h2)
   }"

subsection \<open>update on an instance\<close>

text \<open>
  Modelled from the spec: \<^verbatim>\<open>arrayDiffActions\<close> of ./utils, which is not among the
  sources: "toAdd = newIds - currentIds, toRemove = currentIds - newIds". The result is
  \<^verbatim>\<open>null\<close> (\<open>None\<close>) when both are empty, else the pair of the identifiers to delete
  and the identifiers to add.
\<close>

definition arrayDiffActions :: "val list \<Rightarrow> val list \<Rightarrow> (val list \<times> val list) option" where
  "arrayDiffActions currentIds newIds =
     (let toRemove = filter (\<lambda>x. x \<notin> set newIds) currentIds;
          toAdd = filter (\<lambda>x. x \<notin> set currentIds) newIds
      in if toRemove = [] \<and> toAdd = [] then None else Some (toRemove, toAdd))"

text \<open>The reconciliation of one many-to-many field inside \<^verbatim>\<open>update\<close>: the removals are
  enqueued first, then the additions.\<close>

definition reconcile_m2m :: "env \<Rightarrow> model \<Rightarrow> val \<Rightarrow> val list \<Rightarrow> val list \<Rightarrow> session \<Rightarrow> heap \<Rightarrow> (session \<times> heap) option" where
  "reconcile_m2m e thr sid currentIds normalizedNewIds s h =
     (case arrayDiffActions currentIds normalizedNewIds of
        None \<Rightarrow> Some (s, h)
      | Some (idsToDelete, idsToAdd) \<Rightarrow> do {
          (s1, h1) \<leftarrow> (if 0 < length idsToDelete then m2m_remove e thr sid idsToDelete s h
                       else Some (s, h));
          (if 0 < length idsToAdd then m2m_add e thr sid idsToAdd s1 h1 else Some (s1, h1))
        })"

text \<open>The \<^verbatim>\<open>for (const mergeKey in mergeObj)\<close> loop of \<^verbatim>\<open>update\<close>.\<close>

fun update_keys :: "env \<Rightarrow> model \<Rightarrow> handle \<Rightarrow> val \<Rightarrow> string list \<Rightarrow> session \<Rightarrow> heap \<Rightarrow> (session \<times> heap) option" where
  "update_keys e m inst mergeObj [] s h = Some (s, h)"
| "update_keys e m inst mergeObj (k # ks) s h =
     (case map_of (relFields m) k of
        None \<Rightarrow> update_keys e m inst mergeObj ks s h
      | Some (ManyToMany t r thr) \<Rightarrow> do {
          sid \<leftarrow> getId (Model_getBackend m s) inst h;
          currentIds \<leftarrow> m2m_idArr (through_model thr) sid s h;
          v \<leftarrow> get_prop h mergeObj k;
          newIds \<leftarrow> get_arr h v;
          (s1, h1) \<leftarrow> reconcile_m2m e (through_model thr) sid currentIds
                        (map (normalizeEntity e h) newIds) s h;
          h2 \<leftarrow> delete_prop h1 mergeObj k;
          update_keys e m inst mergeObj ks s1 h2
        }
      | Some f \<Rightarrow> do {
          v \<leftarrow> get_prop h mergeObj k;
          h1 \<leftarrow> set_prop h mergeObj k (normalizeEntity e h v);
          update_keys e m inst mergeObj ks s h1
        })"

text \<open>\<^verbatim>\<open>update(userMergeObj)\<close> on an instance.\<close>

definition Model_update :: "env \<Rightarrow> model \<Rightarrow> handle \<Rightarrow> val \<Rightarrow> session \<Rightarrow> heap \<Rightarrow> (session \<times> heap) option" where
  "Model_update e m inst userMergeObj s h =
     (let (mergeObj, h0) = alloc (Obj (assign [] (own_props h userMergeObj))) h in do {
        (s1, h1) \<leftarrow> update_keys e m inst mergeObj (map fst (own_props h0 mergeObj)) s h0;
        i \<leftarrow> getId (Model_getBackend m s1) inst h1;
        let (idArr, h2) = alloc (Arr [i]) h1;
        let (pl, h3) = alloc (Obj [(''idArr'', idArr), (''updater'', mergeObj)]) h2;
        Some (Model_addUpdate m UPDATE pl s1, h3)
      })"

section \<open>Observing a state\<close>

text \<open>
  The order sequence and the index map of a state in indexed form, as the data model of
  the specification names them: the array under \<^verbatim>\<open>arrName\<close> and the object under
  \<^verbatim>\<open>mapName\<close>. In flat form \<open>state_ids\<close> is the array of records.
\<close>

definition state_ids :: "backend \<Rightarrow> heap \<Rightarrow> val \<Rightarrow> val list option" where
  "state_ids b h branch = do { a \<leftarrow> get_prop h branch (arrName b); get_arr h a }"

definition state_index :: "backend \<Rightarrow> heap \<Rightarrow> val \<Rightarrow> props option" where
  "state_index b h branch = do { m \<leftarrow> get_prop h branch (mapName b); get_obj h m }"

text \<open>
  A record is unchanged by a patch when the patch has no key whose value differs from the
  record's own: \<^verbatim>\<open>objectDiff\<close> is \<^verbatim>\<open>null\<close>, and then \<^verbatim>\<open>mapFunction\<close> returns the record
  itself. The reduce and the map of \<^verbatim>\<open>update\<close> compare what \<^verbatim>\<open>mapFunction\<close> returned with
  the record by \<^verbatim>\<open>===\<close>, hence the record is not \<^verbatim>\<open>NaN\<close>.
\<close>

definition unchanged_by :: "heap \<Rightarrow> props \<Rightarrow> val \<Rightarrow> bool" where
  "unchanged_by h pp r \<longleftrightarrow> r \<noteq> NaN \<and> objectDiff h r pp = None"

section \<open>Examples\<close>

text \<open>
  One heap for the examples. It holds a state in indexed form with the records
  \<^verbatim>\<open>{id: 0, name: "A", tag: "t"}\<close> and \<^verbatim>\<open>{id: 1, name: "B", tag: "t"}\<close>, the same two
  records as a state in flat form, an identifier list \<^verbatim>\<open>[0]\<close>, two patches, a record
  that is in neither state, and three lookup patterns: one that both records match, one
  that no record matches, and one that names identifier 1 with another name than the
  record's.
\<close>

definition ex_heap :: heap where
  "ex_heap =
     [Arr [Num 0, Num 1],
      Obj [(''id'', Num 0), (''name'', Str ''A''), (''tag'', Str ''t'')],
      Obj [(''id'', Num 1), (''name'', Str ''B''), (''tag'', Str ''t'')],
      Obj [(''0'', Ref 1), (''1'', Ref 2)],
      Obj [(''items'', Ref 0), (''itemsById'', Ref 3)],
      Arr [Ref 1, Ref 2],
      Obj [(''items'', Ref 5)],
      Arr [Num 0],
      Obj [(''name'', Str ''C'')],
      Obj [(''name'', Str ''A'')],
      Obj [(''id'', Num 2), (''name'', Str ''X'')],
      Obj [(''tag'', Str ''t'')],
      Obj [(''name'', Str ''Z'')],
      Obj [(''id'', Num 1), (''name'', Str ''A'')]]"

definition ex_state :: val where "ex_state = Ref 4"
definition ex_flat_state :: val where "ex_flat_state = Ref 6"
definition ex_ids :: val where "ex_ids = Ref 7"
definition ex_patch_C :: val where "ex_patch_C = Ref 8"
definition ex_patch_A :: val where "ex_patch_A = Ref 9"
definition ex_entry :: val where "ex_entry = Ref 10"
definition ex_pattern_both :: val where "ex_pattern_both = Ref 11"
definition ex_pattern_none :: val where "ex_pattern_none = Ref 12"
definition ex_lookup_id :: val where "ex_lookup_id = Ref 13"

text \<open>A model class without relations, and a session that holds the indexed state as
  its state and has nothing pending.\<close>

definition ex_model :: model where
  "ex_model = \<lparr> modelName = ''Book'', backendOpts = defaultOpts, relFields = [],
                definedProperties = [] \<rparr>"

definition ex_session :: session where
  "ex_session = \<lparr> states = [(''Book'', ex_state)], updates = [],
                  session_withMutations = False, nextIds = [] \<rparr>"

text \<open>An empty store in indexed form, and three objects to create records from:
  \<^verbatim>\<open>{id: 0, name: "A"}\<close>, \<^verbatim>\<open>{name: "B"}\<close> and \<^verbatim>\<open>{id: 5, name: "E"}\<close>.\<close>

definition ex_empty_heap :: heap where
  "ex_empty_heap =
     [Arr [],
      Obj [],
      Obj [(''items'', Ref 0), (''itemsById'', Ref 1)],
      Obj [(''id'', Num 0), (''name'', Str ''A'')],
      Obj [(''name'', Str ''B'')],
      Obj [(''id'', Num 5), (''name'', Str ''E'')]]"

definition ex_empty_session :: session where
  "ex_empty_session = \<lparr> states = [(''Book'', Ref 2)], updates = [],
                        session_withMutations = False, nextIds = [] \<rparr>"

definition flatOpts :: backend where
  "flatOpts = defaultOpts \<lparr> indexById := False \<rparr>"

text \<open>An environment with no function values, a \<^verbatim>\<open>sortByOrder\<close> that keeps the
  order of an array, and field values that are identifiers already.\<close>

definition ex_env :: env where
  "ex_env = \<lparr> call = (\<lambda>f v h. None),
              sortByOrder = (\<lambda>h c its ords. map snd (own_props h c)),
              normalizeEntity = (\<lambda>h v. v) \<rparr>"

text \<open>A session in which the model has no state yet, and a pending CREATE action.\<close>

definition ex_unset_session :: session where
  "ex_unset_session = \<lparr> states = [], updates = [], session_withMutations = False, nextIds = [] \<rparr>"

definition ex_create :: action where
  "ex_create = \<lparr> atype = CREATE, payload = ex_entry, meta_name = ''Book'' \<rparr>"

text \<open>More pending actions of the same model: a DELETE of the identifier list \<^verbatim>\<open>[0]\<close>, a
  CREATE of the object \<^verbatim>\<open>{id: 1, name: "A"}\<close>, whose identifier the state already holds,
  and an UPDATE whose payload \<^verbatim>\<open>{idArr: [0], updater: {name: "C"}}\<close> is one more object,
  at reference 14 of the heap \<open>ex_update_heap\<close>.\<close>

definition ex_delete :: action where
  "ex_delete = \<lparr> atype = DELETE, payload = ex_ids, meta_name = ''Book'' \<rparr>"

definition ex_create_again :: action where
  "ex_create_again = \<lparr> atype = CREATE, payload = ex_lookup_id, meta_name = ''Book'' \<rparr>"

definition ex_update_heap :: heap where
  "ex_update_heap = ex_heap @ [Obj [(''idArr'', ex_ids), (''updater'', ex_patch_C)]]"

definition ex_update :: action where
  "ex_update = \<lparr> atype = UPDATE, payload = Ref 14, meta_name = ''Book'' \<rparr>"

text \<open>The same model class over a backend in flat form, and a session that holds the
  flat state.\<close>

definition ex_flat_model :: model where
  "ex_flat_model = ex_model \<lparr> backendOpts := flatOpts \<rparr>"

definition ex_flat_session :: session where
  "ex_flat_session = ex_session \<lparr> states := [(''Book'', ex_flat_state)] \<rparr>"





section \<open>Verified properties\<close>

subsection \<open>The heap only grows under allocation\<close>

lemma get_obj_Some: "get_obj h v = Some ps \<longleftrightarrow> load h v = Some (Obj ps)"
  by (cases "load h v" rule: option.exhaust; cases "the (load h v)"; simp add: get_obj_def)

lemma get_arr_Some: "get_arr h v = Some xs \<longleftrightarrow> load h v = Some (Arr xs)"
  by (cases "load h v" rule: option.exhaust; cases "the (load h v)"; simp add: get_arr_def)

lemma load_prefix: "prefix h h' \<Longrightarrow> load h v = Some c \<Longrightarrow> load h' v = Some c"
  by (auto simp: load_def prefix_def nth_append split: val.splits if_splits)

lemma get_prop_prefix: "prefix h h' \<Longrightarrow> get_prop h v k = Some x \<Longrightarrow> get_prop h' v k = Some x"
  by (auto simp: get_prop_def dest: load_prefix split: val.splits option.splits cell.splits)

lemma get_arr_prefix: "prefix h h' \<Longrightarrow> get_arr h v = Some xs \<Longrightarrow> get_arr h' v = Some xs"
  by (simp add: get_arr_Some load_prefix)

lemma get_obj_prefix: "prefix h h' \<Longrightarrow> get_obj h v = Some xs \<Longrightarrow> get_obj h' v = Some xs"
  by (simp add: get_obj_Some load_prefix)

lemma state_ids_prefix:
  "prefix h h' \<Longrightarrow> state_ids b h v = Some xs \<Longrightarrow> state_ids b h' v = Some xs"
  by (auto simp: state_ids_def bind_eq_Some_conv dest: get_prop_prefix get_arr_prefix)

lemma state_index_prefix:
  "prefix h h' \<Longrightarrow> state_index b h v = Some pm \<Longrightarrow> state_index b h' v = Some pm"
  by (auto simp: state_index_def bind_eq_Some_conv dest: get_prop_prefix get_obj_prefix)

subsection \<open>Object.assign on property lists\<close>

lemma assign_append:
  "distinct (map fst src) \<Longrightarrow> fst ` set ps \<inter> fst ` set src = {} \<Longrightarrow> assign ps src = ps @ src"
proof (induction src arbitrary: ps)
  case Nil
  then show ?case by (simp add: assign_def)
next
  case (Cons x src)
  obtain k v where x: "x = (k, v)" by (cases x)
  have k: "k \<notin> fst ` set ps" using Cons.prems x by auto
  then have u: "AList.update k v ps = ps @ [(k, v)]"
    by (induction ps) auto
  have "assign ps (x # src) = assign (ps @ [(k, v)]) src"
    by (simp add: assign_def x u)
  also have "\<dots> = (ps @ [(k, v)]) @ src"
    using Cons.prems x by (intro Cons.IH) auto
  finally show ?case by (simp add: x)
qed

lemma assign_empty: "distinct (map fst ps) \<Longrightarrow> assign [] ps = ps"
  using assign_append [of ps "[]"] by simp

lemma assign_pair: "k \<noteq> k' \<Longrightarrow> assign [] [(k, v), (k', v')] = [(k, v), (k', v')]"
  by (simp add: assign_def)

lemma assign_single: "assign ps [(k, v)] = AList.update k v ps"
  by (simp add: assign_def)

subsection \<open>insert, copy-on-write\<close>

lemma insert_cow:
  assumes idx: "indexById b" and cow: "\<not> withMutations b" and names: "arrName b \<noteq> mapName b"
    and ids: "state_ids b h branch = Some xs"
    and index: "state_index b h branch = Some pm" and dist: "distinct (map fst pm)"
    and ident: "get_prop h entry (idAttribute b) = Some i" and scalar: "get_arr h i = None"
  shows "\<exists>branch' h'.
           Backend_insert b branch entry h = Some (branch', h')
         \<and> state_ids b h' branch' = Some (xs @ [i])
         \<and> state_index b h' branch' = Some (AList.update (key_of i) entry pm)
         \<and> load h branch' = None
         \<and> prefix h h'
         \<and> state_ids b h' branch = Some xs
         \<and> state_index b h' branch = Some pm"
proof -
  obtain a where a: "get_prop h branch (arrName b) = Some a" and xs: "get_arr h a = Some xs"
    using ids by (auto simp: state_ids_def bind_eq_Some_conv)
  obtain m where m: "get_prop h branch (mapName b) = Some m" and pm: "load h m = Some (Obj pm)"
    using index by (auto simp: state_index_def bind_eq_Some_conv get_obj_Some)
  have conc: "arr_concat h xs i = xs @ [i]"
    using scalar by (auto simp: arr_concat_def get_arr_def split: option.splits cell.splits)
  define h1 where "h1 = h @ [Arr (xs @ [i])]"
  define pm' where "pm' = AList.update (key_of i) entry pm"
  define h2 where "h2 = h1 @ [Obj pm']"
  define h3 where "h3 = h2 @ [Obj [(arrName b, Ref (length h)), (mapName b, Ref (Suc (length h)))]]"
  have p1: "prefix h h1" and p3: "prefix h h3" by (simp_all add: h1_def h2_def h3_def)
  have m1: "get_prop h1 branch (mapName b) = Some m" using m p1 by (rule get_prop_prefix[rotated])
  have own: "own_props h1 m = pm" using load_prefix[OF p1 pm] by (simp add: own_props_def)
  have res: "Backend_insert b branch entry h = Some (Ref (Suc (Suc (length h))), h3)"
    using idx cow names
    by (simp add: Backend_insert_def ident a xs conc alloc_def m1[unfolded h1_def]
        own[unfolded h1_def] assign_empty[OF dist]
        assign_single assign_pair pm'_def h1_def h2_def h3_def)
  have l3: "length h1 = Suc (length h)" "length h2 = Suc (Suc (length h))"
    by (simp_all add: h1_def h2_def)
  have ids': "state_ids b h3 (Ref (Suc (Suc (length h)))) = Some (xs @ [i])"
    using names
    by (simp add: state_ids_def get_prop_def load_def h3_def l3 obj_get_def nth_append
        get_arr_def h2_def h1_def)
  have idx': "state_index b h3 (Ref (Suc (Suc (length h)))) = Some pm'"
    using names
    by (simp add: state_index_def get_obj_def get_prop_def load_def h3_def l3 obj_get_def
        nth_append h2_def h1_def)
  have "load h (Ref (Suc (Suc (length h)))) = None" by (simp add: load_def)
  then show ?thesis
    using res ids' idx'[unfolded pm'_def] p3 state_ids_prefix[OF p3 ids]
      state_index_prefix[OF p3 index] by blast
qed


text \<open>
  C9. With \<^verbatim>\<open>withMutations\<close> false, \<^verbatim>\<open>insert\<close> on a state in indexed form returns a
  new state object: its order sequence is the old sequence with the entry's identifier
  appended, its index map is the old map with the one entry added under the identifier's
  key. The heap after the call extends the heap before it, so no cell that existed was
  written: the previous state, its order sequence and its index map read as before.
  The identifier is a scalar (not an array, which \<^verbatim>\<open>concat\<close> would spread), the two
  state keys differ and the index map holds each key once.
\<close>

theorem insert_copy_on_write:
  assumes idx: "indexById b" and cow: "\<not> withMutations b" and names: "arrName b \<noteq> mapName b"
    and ids: "state_ids b h branch = Some xs"
    and index: "state_index b h branch = Some pm" and dist: "distinct (map fst pm)"
    and ident: "get_prop h entry (idAttribute b) = Some i" and scalar: "get_arr h i = None"
  shows "\<exists>branch' h' pm'.
           Backend_insert b branch entry h = Some (branch', h')
         \<and> state_ids b h' branch' = Some (xs @ [i])
         \<and> state_index b h' branch' = Some pm'
         \<and> map_of pm' = (map_of pm)(key_of i \<mapsto> entry)
         \<and> load h branch' = None
         \<and> prefix h h'
         \<and> state_ids b h' branch = Some xs
         \<and> state_index b h' branch = Some pm"
proof -
  obtain branch' h' where r: "Backend_insert b branch entry h = Some (branch', h')"
    "state_ids b h' branch' = Some (xs @ [i])"
    "state_index b h' branch' = Some (AList.update (key_of i) entry pm)"
    "load h branch' = None" "prefix h h'"
    "state_ids b h' branch = Some xs" "state_index b h' branch = Some pm"
    using insert_cow[OF assms] by blast
  have "map_of (AList.update (key_of i) entry pm) = (map_of pm)(key_of i \<mapsto> entry)"
    by (simp add: update_conv')
  with r show ?thesis by blast
qed

theorem insert_copy_on_write_witness:
  "indexById defaultOpts \<and> \<not> withMutations defaultOpts
   \<and> arrName defaultOpts \<noteq> mapName defaultOpts
   \<and> state_ids defaultOpts ex_heap ex_state = Some [Num 0, Num 1]
   \<and> state_index defaultOpts ex_heap ex_state = Some [(''0'', Ref 1), (''1'', Ref 2)]
   \<and> get_prop ex_heap ex_entry (idAttribute defaultOpts) = Some (Num 2)
   \<and> get_arr ex_heap (Num 2) = None
   \<and> (\<exists>branch' h' pm'.
         Backend_insert defaultOpts ex_state ex_entry ex_heap = Some (branch', h')
       \<and> state_ids defaultOpts h' branch' = Some ([Num 0, Num 1] @ [Num 2])
       \<and> state_index defaultOpts h' branch' = Some pm'
       \<and> map_of pm' = (map_of [(''0'', Ref 1), (''1'', Ref 2)])(key_of (Num 2) \<mapsto> ex_entry)
       \<and> load ex_heap branch' = None
       \<and> prefix ex_heap h'
       \<and> state_ids defaultOpts h' ex_state = Some [Num 0, Num 1]
       \<and> state_index defaultOpts h' ex_state = Some [(''0'', Ref 1), (''1'', Ref 2)])"
proof -
  have 1: "indexById defaultOpts" and 2: "\<not> withMutations defaultOpts"
    and 3: "arrName defaultOpts \<noteq> mapName defaultOpts"
    by (simp_all add: defaultOpts_def)
  have 4: "state_ids defaultOpts ex_heap ex_state = Some [Num 0, Num 1]" by code_simp
  have 5: "state_index defaultOpts ex_heap ex_state = Some [(''0'', Ref 1), (''1'', Ref 2)]"
    by code_simp
  have 6: "distinct (map fst [(''0'', Ref 1), (''1'', Ref 2)])" by simp
  have 7: "get_prop ex_heap ex_entry (idAttribute defaultOpts) = Some (Num 2)" by code_simp
  have 8: "get_arr ex_heap (Num 2) = None" by code_simp
  from insert_copy_on_write [OF 1 2 3 4 5 6 7 8] 1 2 3 4 5 7 8 show ?thesis by blast
qed

subsection \<open>update: the state that comes back\<close>

lemma prefix_alloc: "prefix h (snd (alloc c h))"
  by (simp add: alloc_def)

lemma own_props_prefix: "prefix h h' \<Longrightarrow> load h v = Some c \<Longrightarrow> own_props h' v = own_props h v"
  by (simp add: own_props_def load_prefix)

lemma load_SomeD: "load h v = Some c \<Longrightarrow> \<exists>r. v = Ref r \<and> r < length h \<and> h ! r = c"
  by (cases v) (auto simp: load_def split: if_splits)

lemma get_prop_obj: "get_obj h v = Some ps \<Longrightarrow> get_prop h v k = Some (obj_get ps k)"
  by (auto simp: get_obj_Some get_prop_def dest!: load_SomeD) (simp add: load_def)

lemma own_props_obj: "get_obj h v = Some ps \<Longrightarrow> own_props h v = ps"
  by (simp add: get_obj_Some own_props_def)

lemma objectDiff_None_iff:
  "objectDiff h t src = None \<longleftrightarrow>
     (\<forall>(k, v)\<in>set src. \<exists>x. map_of (own_props h t) k = Some x \<and> strict_eq x v)"
  by (auto simp: objectDiff_def Let_def filter_empty_conv split: option.splits)

lemma objectDiff_None_prefix:
  assumes "objectDiff h t src = None" "prefix h h'"
  shows "objectDiff h' t src = None"
proof (cases "load h t")
  case None
  then have "own_props h t = []" by (simp add: own_props_def)
  with assms(1) have "src = []" by (cases src) (auto simp: objectDiff_None_iff)
  then show ?thesis by (simp add: objectDiff_def)
next
  case (Some c)
  then show ?thesis using assms by (simp add: objectDiff_def own_props_prefix)
qed

lemma unchanged_by_prefix: "unchanged_by h pp r \<Longrightarrow> prefix h h' \<Longrightarrow> unchanged_by h' pp r"
  by (auto simp: unchanged_by_def intro: objectDiff_None_prefix)

lemma mapFunction_unchanged:
  assumes "get_obj h patcher = Some pp" "unchanged_by h pp r"
  shows "mapFunction e patcher r h = Some (r, h)"
proof -
  obtain p where "patcher = Ref p"
    using assms(1) by (auto simp: get_obj_Some dest: load_SomeD)
  then show ?thesis using assms by (simp add: mapFunction_def own_props_obj unchanged_by_def)
qed

lemma mapFunction_obj:
  assumes "get_obj h patcher = Some pp"
  shows "\<exists>r h'. mapFunction e patcher old h = Some (r, h') \<and> prefix h h'"
proof -
  obtain p where "patcher = Ref p" using assms by (auto simp: get_obj_Some dest: load_SomeD)
  then show ?thesis
    by (cases "objectDiff h old (own_props h (Ref p))") (simp_all add: mapFunction_def alloc_def)
qed

text \<open>The keys that the reduce adds to \<^verbatim>\<open>updatedMap\<close> are keys of listed identifiers
  whose record the patch changes.\<close>

lemma update_reduce_keys:
  assumes "prefix h0 h" "get_prop h branch (mapName b) = Some m" "get_obj h m = Some pm"
    and "get_obj h patcher = Some pp"
  shows "\<exists>umap' h'. update_reduce e b branch patcher ids umap h = Some (umap', h')
           \<and> prefix h h'
           \<and> fst ` set umap' \<subseteq> fst ` set umap
                \<union> key_of ` {i \<in> set ids. \<not> unchanged_by h0 pp (obj_get pm (key_of i))}"
  using assms
proof (induction ids arbitrary: umap h)
  case Nil
  then show ?case by simp
next
  case (Cons i ids)
  let ?old = "obj_get pm (key_of i)"
  let ?C = "\<lambda>js. key_of ` {i \<in> set js. \<not> unchanged_by h0 pp (obj_get pm (key_of i))}"
  obtain r h1 where mf: "mapFunction e patcher ?old h = Some (r, h1)" and p1: "prefix h h1"
    using mapFunction_obj[OF Cons.prems(4), of e ?old] by blast
  have p01: "prefix h0 h1" using Cons.prems(1) p1 by (rule prefix_order.trans)
  note m1 = get_prop_prefix[OF p1 Cons.prems(2)]
  note pm1 = get_obj_prefix[OF p1 Cons.prems(3)]
  note pat1 = get_obj_prefix[OF p1 Cons.prems(4)]
  define umap1 where "umap1 = (if strict_eq r ?old then umap else AList.update (key_of i) r umap)"
  have same: "umap1 = umap" if u: "unchanged_by h0 pp ?old"
  proof -
    have "unchanged_by h pp ?old" using u Cons.prems(1) by (rule unchanged_by_prefix)
    then have "mapFunction e patcher ?old h = Some (?old, h)" "?old \<noteq> NaN"
      using mapFunction_unchanged[OF Cons.prems(4)] by (simp_all add: unchanged_by_def)
    then show ?thesis using mf by (simp add: umap1_def strict_eq_def)
  qed
  have k1: "fst ` set umap1 \<subseteq> fst ` set umap \<union> ?C [i]"
  proof (cases "unchanged_by h0 pp ?old")
    case True
    then show ?thesis using same by simp
  next
    case False
    have "fst ` set umap1 \<subseteq> insert (key_of i) (fst ` set umap)"
      by (auto simp: umap1_def dom_update)
    moreover have "?C [i] = {key_of i}" using False by auto
    ultimately show ?thesis by auto
  qed
  obtain umap' h' where red: "update_reduce e b branch patcher ids umap1 h1 = Some (umap', h')"
      and p2: "prefix h1 h'" and k2: "fst ` set umap' \<subseteq> fst ` set umap1 \<union> ?C ids"
    using Cons.IH[OF p01 m1 pm1 pat1, of umap1] by blast
  have "update_reduce e b branch patcher (i # ids) umap h = Some (umap', h')"
    by (simp add: Cons.prems(2) get_prop_obj[OF Cons.prems(3)] mf m1 get_prop_obj[OF pm1]
        red[unfolded umap1_def])
  moreover have "prefix h h'" using p1 p2 by (rule prefix_order.trans)
  moreover have "fst ` set umap' \<subseteq> fst ` set umap \<union> ?C (i # ids)"
  proof -
    have "\<And>A A' B K K'. A' \<subseteq> A \<union> K' \<Longrightarrow> B \<subseteq> A' \<union> K \<Longrightarrow> B \<subseteq> A \<union> (K' \<union> K)"
      by blast
    from this[OF k1 k2] have "fst ` set umap' \<subseteq> fst ` set umap \<union> (?C [i] \<union> ?C ids)" .
    moreover have "?C [i] \<union> ?C ids = ?C (i # ids)" by auto
    ultimately show ?thesis by simp
  qed
  ultimately show ?case by blast
qed

lemma update_reduce_unchanged:
  assumes "get_prop h branch (mapName b) = Some m" "get_obj h m = Some pm"
    and "get_obj h patcher = Some pp"
    and "\<forall>i\<in>set ids. unchanged_by h pp (obj_get pm (key_of i))"
  shows "update_reduce e b branch patcher ids umap h = Some (umap, h)"
  using assms(4)
proof (induction ids)
  case Nil
  then show ?case by simp
next
  case (Cons i ids)
  have r: "get_prop h m (key_of i) = Some (obj_get pm (key_of i))"
    using assms(2) by (rule get_prop_obj)
  have u: "unchanged_by h pp (obj_get pm (key_of i))" using Cons.prems by simp
  then have n: "obj_get pm (key_of i) \<noteq> NaN" by (simp add: unchanged_by_def)
  show ?case using Cons assms(1)
    by (simp add: r mapFunction_unchanged[OF assms(3) u] strict_eq_def n)
qed

lemma update_map_unchanged:
  assumes "get_obj h patcher = Some pp" "get_arr h idArr = Some ids"
    and "\<forall>x\<in>set xs. \<exists>i. get_prop h x (idAttribute b) = Some i
           \<and> (i \<in> set ids \<longrightarrow> unchanged_by h pp x)"
  shows "update_map e b idArr patcher xs h = Some (xs, False, h)"
  using assms(3)
proof (induction xs)
  case Nil
  then show ?case by simp
next
  case (Cons x xs)
  then obtain i where i: "get_prop h x (idAttribute b) = Some i"
     and u: "i \<in> set ids \<longrightarrow> unchanged_by h pp x" by auto
  show ?case
  proof (cases "i \<in> set ids")
    case True
    then have ux: "unchanged_by h pp x" using u by simp
    then have n: "x \<noteq> NaN" by (simp add: unchanged_by_def)
    show ?thesis using Cons i True assms(2)
      by (simp add: arr_includes_def mapFunction_unchanged[OF assms(1) ux] strict_eq_def n)
  next
    case False
    then show ?thesis using Cons i assms(2) by (simp add: arr_includes_def)
  qed
qed


lemma set_prop_new:
  "set_prop (h @ Obj ps # rest) (Ref (length h)) k v = Some (h @ Obj (AList.update k v ps) # rest)"
  by (simp add: set_prop_def load_def store_def nth_append list_update_append)

lemma update_prepare_cow:
  assumes "\<not> withMutations b" "get_prop h branch (mapName b) = Some m"
    "get_prop h branch (arrName b) = Some a" "load h m = Some c"
  shows "update_prepare b branch (Ref (length h)) (h @ [Obj []]) =
     Some (h @ [Obj (AList.update (arrName b) a [(mapName b, Ref (Suc (length h)))]),
                Obj (assign [] (own_props h m))])"
proof -
  have p: "prefix h (h @ [Obj []])" by simp
  have p2: "prefix h (h @ [Obj [(mapName b, Ref (Suc (length h)))], Obj (assign [] (own_props h m))])" by simp
  show ?thesis using assms(1)
    by (simp add: update_prepare_def get_prop_prefix[OF p assms(2)] alloc_def
        own_props_prefix[OF p assms(4)] set_prop_new get_prop_prefix[OF p2 assms(3)])
qed

lemma get_prop_readable:
  assumes "get_prop h v k = Some x" "load h x = Some c"
  shows "\<exists>y. get_prop h v k' = Some y"
proof -
  have "x \<noteq> Undefined" using assms(2) by (auto dest: load_SomeD)
  then show ?thesis using assms(1)
    by (cases v) (auto simp: get_prop_def split: option.splits cell.splits)
qed

lemma objectDiff_Nil: "objectDiff h t [] = None"
  by (simp add: objectDiff_def)


lemma update_indexed_unchanged:
  assumes idx: "indexById b" and pat: "get_obj h patcher = Some pp"
    and ids: "get_arr h idArr = Some ids" and index: "state_index b h branch = Some pm"
    and same: "\<forall>i\<in>set ids. unchanged_by h pp (obj_get pm (key_of i))"
  shows "\<exists>h'. Backend_update e b branch idArr patcher h = Some (branch, h') \<and> prefix h h'"
proof -
  obtain m where m: "get_prop h branch (mapName b) = Some m" and pm: "get_obj h m = Some pm"
    using index by (auto simp: state_index_def bind_eq_Some_conv)
  show ?thesis
  proof (cases "withMutations b")
    case True
    then show ?thesis using idx
      by (simp add: Backend_update_def returnBranch_def update_prepare_def ids m
          update_reduce_unchanged[OF m pm pat same] objectDiff_Nil)
  next
    case False
    obtain a where a: "get_prop h branch (arrName b) = Some a"
      using get_prop_readable[OF m] pm by (auto simp: get_obj_Some)
    define h1 where "h1 = h @ [Obj (AList.update (arrName b) a [(mapName b, Ref (Suc (length h)))]),
                Obj (assign [] (own_props h m))]"
    have p: "prefix h h1" by (simp add: h1_def)
    have prep: "update_prepare b branch (Ref (length h)) (h @ [Obj []]) = Some h1"
      unfolding h1_def using False m a pm by (intro update_prepare_cow) (auto simp: get_obj_Some)
    have same1: "\<forall>i\<in>set ids. unchanged_by h1 pp (obj_get pm (key_of i))"
      using same unchanged_by_prefix[OF _ p] by blast
    have red: "update_reduce e b branch patcher ids [] h1 = Some ([], h1)"
      by (rule update_reduce_unchanged[OF get_prop_prefix[OF p m] get_obj_prefix[OF p pm]
            get_obj_prefix[OF p pat] same1])
    have rb: "\<exists>y. get_prop h1 (Ref (length h)) (mapName b) = Some y"
      by (simp add: get_prop_def load_def h1_def)
    show ?thesis using idx False rb p
      by (auto simp: Backend_update_def returnBranch_def alloc_def prep get_arr_prefix[OF p ids]
          red objectDiff_Nil)
  qed
qed

lemma update_flat_unchanged:
  assumes flat: "\<not> indexById b" and pat: "get_obj h patcher = Some pp"
    and ids: "get_arr h idArr = Some ids"
    and br: "get_obj h branch = Some pb" and xs: "state_ids b h branch = Some xs"
    and same: "\<forall>x\<in>set xs. \<exists>i. get_prop h x (idAttribute b) = Some i
           \<and> (i \<in> set ids \<longrightarrow> unchanged_by h pp x)"
  shows "\<exists>h'. Backend_update e b branch idArr patcher h = Some (branch, h')"
proof -
  obtain a where a: "get_prop h branch (arrName b) = Some a" and ga: "get_arr h a = Some xs"
    using xs by (auto simp: state_ids_def bind_eq_Some_conv)
  show ?thesis
  proof (cases "withMutations b")
    case True
    obtain r where r: "branch = Ref r" "r < length h" "h ! r = Obj pb"
      using br by (auto simp: get_obj_Some dest: load_SomeD)
    have "\<exists>h'. set_prop (h @ [Arr xs]) branch (arrName b) (Ref (length h)) = Some h'"
      using r by (simp add: set_prop_def load_def store_def nth_append)
    then show ?thesis using flat True
      by (auto simp: Backend_update_def returnBranch_def a ga alloc_def
          update_map_unchanged[OF pat ids same])
  next
    case False
    have p: "prefix h (h @ [Obj []])" by simp
    have same1: "\<forall>x\<in>set xs. \<exists>i. get_prop (h @ [Obj []]) x (idAttribute b) = Some i
           \<and> (i \<in> set ids \<longrightarrow> unchanged_by (h @ [Obj []]) pp x)"
      using same get_prop_prefix[OF p] unchanged_by_prefix[OF _ p] by blast
    have "\<exists>h'. set_prop ((h @ [Obj []]) @ [Arr xs]) (Ref (length h)) (arrName b) (Ref (Suc (length h))) = Some h'"
      by (simp add: set_prop_def load_def store_def nth_append)
    then show ?thesis using flat False
      by (auto simp: Backend_update_def returnBranch_def alloc_def get_prop_prefix[OF p a]
          get_arr_prefix[OF p ga]
          update_map_unchanged[OF get_obj_prefix[OF p pat] get_arr_prefix[OF p ids] same1])
  qed
qed

lemma map_of_assign_other: "k \<notin> fst ` set src \<Longrightarrow> map_of (assign ps src) k = map_of ps k"
proof (induction src arbitrary: ps)
  case Nil
  then show ?case by (simp add: assign_def)
next
  case (Cons x src)
  obtain k' v where x: "x = (k', v)" by (cases x)
  have "assign ps (x # src) = assign (AList.update k' v ps) src" by (simp add: assign_def x)
  then show ?case using Cons x by (simp add: update_conv')
qed

lemma objectDiff_subset: "objectDiff h t src = Some d \<Longrightarrow> set d \<subseteq> set src"
  by (auto simp: objectDiff_def Let_def split: if_splits)

lemma prefix_list_update: "prefix h h' \<Longrightarrow> length h \<le> r \<Longrightarrow> prefix h (h'[r := c])"
  by (auto simp: prefix_def list_update_append)



lemma update_indexed_cow:
  assumes idx: "indexById b" and cow: "\<not> withMutations b" and names: "arrName b \<noteq> mapName b"
    and pat: "get_obj h patcher = Some pp" and ids: "get_arr h idArr = Some ids"
    and a: "get_prop h branch (arrName b) = Some a"
    and index: "state_index b h branch = Some pm" and dist: "distinct (map fst pm)"
  shows "\<exists>branch' h' pm'. Backend_update e b branch idArr patcher h = Some (branch', h')
           \<and> prefix h h'
           \<and> get_prop h' branch' (arrName b) = Some a
           \<and> state_index b h' branch' = Some pm'
           \<and> (\<forall>k. (\<forall>i\<in>set ids. key_of i = k \<longrightarrow> unchanged_by h pp (obj_get pm k))
                  \<longrightarrow> map_of pm' k = map_of pm k)"
proof -
  obtain m where m: "get_prop h branch (mapName b) = Some m" and pm: "get_obj h m = Some pm"
    using index by (auto simp: state_index_def bind_eq_Some_conv)
  have lm: "load h m = Some (Obj pm)" using pm by (simp add: get_obj_Some)
  define rb where "rb = Ref (length h)"
  define mc where "mc = Ref (Suc (length h))"
  define h1 where "h1 = h @ [Obj (AList.update (arrName b) a [(mapName b, mc)]), Obj pm]"
  define C where "C = key_of ` {i \<in> set ids. \<not> unchanged_by h pp (obj_get pm (key_of i))}"
  have p: "prefix h h1" by (simp add: h1_def)
  have prep: "update_prepare b branch rb (h @ [Obj []]) = Some h1"
    using update_prepare_cow[OF cow m a lm] dist
    by (simp add: h1_def rb_def mc_def own_props_def lm assign_empty)
  obtain umap h2 where red: "update_reduce e b branch patcher ids [] h1 = Some (umap, h2)"
      and p2: "prefix h1 h2" and keys: "fst ` set umap \<subseteq> C"
    using update_reduce_keys[OF p get_prop_prefix[OF p m] get_obj_prefix[OF p pm]
        get_obj_prefix[OF p pat], of e ids "[]"] unfolding C_def by auto
  have p02: "prefix h h2" using p p2 by (rule prefix_order.trans)
  have rb1: "load h1 rb = Some (Obj [(mapName b, mc), (arrName b, a)])"
    using names by (simp add: load_def h1_def rb_def nth_append)
  have mc1: "load h1 mc = Some (Obj pm)"
    by (simp add: load_def h1_def mc_def nth_append)
  note rb2 = load_prefix[OF p2 rb1]
  note mc2 = load_prefix[OF p2 mc1]
  have rm: "get_prop h2 rb (mapName b) = Some mc"
    using rb2 by (simp add: get_prop_def rb_def obj_get_def)
  have start: "Backend_update e b branch idArr patcher h =
      (case objectDiff h2 mc umap of
         Some d \<Rightarrow> do { h3 \<leftarrow> assign_into h2 mc d; Some (Ref (length h), h3) }
       | None \<Rightarrow> Some (branch, h2))"
    using idx cow
    by (simp add: Backend_update_def returnBranch_def alloc_def prep[unfolded rb_def]
        get_arr_prefix[OF p ids] red rm[unfolded rb_def])
  have out: "k \<notin> C" if "\<forall>i\<in>set ids. key_of i = k \<longrightarrow> unchanged_by h pp (obj_get pm k)" for k
    using that unfolding C_def by blast
  show ?thesis
  proof (cases "objectDiff h2 mc umap")
    case None
    then have "Backend_update e b branch idArr patcher h = Some (branch, h2)"
      by (simp add: start)
    then show ?thesis
      using p02 get_prop_prefix[OF p02 a] state_index_prefix[OF p02 index] by blast
  next
    case (Some d)
    define h3 where "h3 = h2[Suc (length h) := Obj (assign pm d)]"
    have len: "Suc (Suc (length h)) \<le> length h2"
      using p2 by (auto simp: prefix_def h1_def)
    have ai: "assign_into h2 mc d = Some h3"
      using mc2 len by (simp add: assign_into_def store_def mc_def h3_def)
    have res: "Backend_update e b branch idArr patcher h = Some (rb, h3)"
      by (simp add: start Some ai rb_def)
    have p3: "prefix h h3" unfolding h3_def by (rule prefix_list_update[OF p02]) simp
    have rb3: "load h3 rb = Some (Obj [(mapName b, mc), (arrName b, a)])"
      using rb2 len by (simp add: load_def rb_def h3_def)
    have mc3: "load h3 mc = Some (Obj (assign pm d))"
      using len by (simp add: load_def mc_def h3_def)
    have arr3: "get_prop h3 rb (arrName b) = Some a"
      using rb3 names by (simp add: get_prop_def rb_def obj_get_def)
    have idx3: "state_index b h3 rb = Some (assign pm d)"
      using rb3 mc3 by (simp add: state_index_def get_prop_def rb_def obj_get_def get_obj_def)
    have dC: "fst ` set d \<subseteq> C"
      using objectDiff_subset[OF Some] keys by blast
    have "map_of (assign pm d) k = map_of pm k"
      if "\<forall>i\<in>set ids. key_of i = k \<longrightarrow> unchanged_by h pp (obj_get pm k)" for k
    proof (rule map_of_assign_other)
      show "k \<notin> fst ` set d" using out[OF that] dC by blast
    qed
    then have "\<forall>k. (\<forall>i\<in>set ids. key_of i = k \<longrightarrow> unchanged_by h pp (obj_get pm k))
                  \<longrightarrow> map_of (assign pm d) k = map_of pm k"
      by blast
    then show ?thesis using res p3 arr3 idx3 by blast
  qed
qed

text \<open>
  C5. \<^verbatim>\<open>update\<close> with an object patch. A record is unchanged by the patch when
  \<^verbatim>\<open>objectDiff\<close> of the record and the patch is \<^verbatim>\<open>null\<close>. When every record the update
  visits is unchanged (in indexed form the records under the keys of the identifiers, in
  flat form the records of the array whose identifier is in the list), \<^verbatim>\<open>update\<close> returns
  the reference \<open>branch\<close> it was given, in both forms and both disciplines. In indexed
  form with \<^verbatim>\<open>withMutations\<close> false, whatever changes, the state that comes back holds
  the same order-array reference \<open>a\<close>, and the same value as before, so the same record
  reference, under every key that is not the key of a listed identifier or whose record
  is unchanged by the patch; the old heap is a prefix of the new one, so those records
  are untouched.
\<close>

theorem update_identity_stable:
  assumes pat: "get_obj h patcher = Some pp" and ids: "get_arr h idArr = Some ids"
  shows "(indexById b \<longrightarrow> state_index b h branch = Some pm \<longrightarrow>
            (\<forall>i\<in>set ids. unchanged_by h pp (obj_get pm (key_of i))) \<longrightarrow>
            (\<exists>h'. Backend_update e b branch idArr patcher h = Some (branch, h') \<and> prefix h h'))
       \<and> (\<not> indexById b \<longrightarrow> get_obj h branch = Some pb \<longrightarrow> state_ids b h branch = Some xs \<longrightarrow>
            (\<forall>x\<in>set xs. \<exists>i. get_prop h x (idAttribute b) = Some i
                \<and> (i \<in> set ids \<longrightarrow> unchanged_by h pp x)) \<longrightarrow>
            (\<exists>h'. Backend_update e b branch idArr patcher h = Some (branch, h')))
       \<and> (indexById b \<longrightarrow> \<not> withMutations b \<longrightarrow> arrName b \<noteq> mapName b \<longrightarrow>
            get_prop h branch (arrName b) = Some a \<longrightarrow>
            state_index b h branch = Some pm \<longrightarrow> distinct (map fst pm) \<longrightarrow>
            (\<exists>branch' h' pm'. Backend_update e b branch idArr patcher h = Some (branch', h')
               \<and> prefix h h'
               \<and> get_prop h' branch' (arrName b) = Some a
               \<and> state_index b h' branch' = Some pm'
               \<and> (\<forall>k. (\<forall>i\<in>set ids. key_of i = k \<longrightarrow> unchanged_by h pp (obj_get pm k))
                      \<longrightarrow> map_of pm' k = map_of pm k)))"
  using update_indexed_unchanged[OF _ pat ids, of b branch pm e]
    update_flat_unchanged[OF _ pat ids, of b branch pb xs e]
    update_indexed_cow[OF _ _ _ pat ids, of b branch a pm e]
  by blast

theorem update_identity_stable_witness:
  "get_arr ex_heap ex_ids = Some [Num 0]
   \<and> get_arr ex_heap (Ref 0) = Some [Num 0, Num 1]
   \<and> get_obj ex_heap ex_patch_A = Some [(''name'', Str ''A'')]
   \<and> state_index defaultOpts ex_heap ex_state = Some [(''0'', Ref 1), (''1'', Ref 2)]
   \<and> unchanged_by ex_heap [(''name'', Str ''A'')] (Ref 1)
   \<and> \<not> unchanged_by ex_heap [(''name'', Str ''A'')] (Ref 2)
   \<and> state_ids flatOpts ex_heap ex_flat_state = Some [Ref 1, Ref 2]
   \<and> (\<exists>h'. Backend_update ex_env defaultOpts ex_state ex_ids ex_patch_A ex_heap
               = Some (ex_state, h') \<and> prefix ex_heap h')
   \<and> (\<exists>h'. Backend_update ex_env flatOpts ex_flat_state ex_ids ex_patch_A ex_heap
               = Some (ex_flat_state, h'))
   \<and> (\<exists>branch' h' pm'.
         Backend_update ex_env defaultOpts ex_state (Ref 0) ex_patch_A ex_heap = Some (branch', h')
       \<and> prefix ex_heap h'
       \<and> get_prop h' branch' (arrName defaultOpts) = Some (Ref 0)
       \<and> state_index defaultOpts h' branch' = Some pm'
       \<and> map_of pm' ''0'' = Some (Ref 1))"
proof -
  let ?pm = "[(''0'', Ref 1), (''1'', Ref 2)]"
  let ?pp = "[(''name'', Str ''A'')]"
  have ids: "get_arr ex_heap ex_ids = Some [Num 0]" by code_simp
  have both: "get_arr ex_heap (Ref 0) = Some [Num 0, Num 1]" by code_simp
  have pA: "get_obj ex_heap ex_patch_A = Some ?pp" by code_simp
  have idx: "indexById defaultOpts" and cow: "\<not> withMutations defaultOpts"
    and names: "arrName defaultOpts \<noteq> mapName defaultOpts"
    and flat: "\<not> indexById flatOpts"
    by (simp_all add: defaultOpts_def flatOpts_def)
  have si: "state_index defaultOpts ex_heap ex_state = Some ?pm" by code_simp
  have u1: "unchanged_by ex_heap ?pp (Ref 1)" by code_simp
  have u2: "\<not> unchanged_by ex_heap ?pp (Ref 2)" by code_simp
  have k0: "key_of (Num 0) = ''0''" and k1: "key_of (Num 1) = ''1''" by code_simp+
  have same: "\<forall>i\<in>set [Num 0]. unchanged_by ex_heap ?pp (obj_get ?pm (key_of i))"
    using u1 by (simp add: k0 obj_get_def)
  have fb: "get_obj ex_heap ex_flat_state = Some [(''items'', Ref 5)]" by code_simp
  have fs: "state_ids flatOpts ex_heap ex_flat_state = Some [Ref 1, Ref 2]" by code_simp
  have fsame: "\<forall>x\<in>set [Ref 1, Ref 2]. \<exists>i. get_prop ex_heap x (idAttribute flatOpts) = Some i
      \<and> (i \<in> set [Num 0] \<longrightarrow> unchanged_by ex_heap ?pp x)"
  proof -
    have "get_prop ex_heap (Ref 1) (idAttribute flatOpts) = Some (Num 0)"
      "get_prop ex_heap (Ref 2) (idAttribute flatOpts) = Some (Num 1)"
      by code_simp+
    then show ?thesis using u1 by simp
  qed
  have a: "get_prop ex_heap ex_state (arrName defaultOpts) = Some (Ref 0)" by code_simp
  have dist: "distinct (map fst ?pm)" by simp
  have k: "\<forall>i\<in>set [Num 0, Num 1]. key_of i = ''0'' \<longrightarrow> unchanged_by ex_heap ?pp (obj_get ?pm ''0'')"
    using u1 by (simp add: k0 k1 obj_get_def)
  from update_identity_stable [OF pA ids, where b = defaultOpts and branch = ex_state
      and pm = ?pm and e = ex_env] idx si same
  have 1: "\<exists>h'. Backend_update ex_env defaultOpts ex_state ex_ids ex_patch_A ex_heap
               = Some (ex_state, h') \<and> prefix ex_heap h'"
    by blast
  from update_identity_stable [OF pA ids, where b = flatOpts and branch = ex_flat_state
      and e = ex_env and pb = "[(''items'', Ref 5)]" and xs = "[Ref 1, Ref 2]"] flat fb fs fsame
  have 2: "\<exists>h'. Backend_update ex_env flatOpts ex_flat_state ex_ids ex_patch_A ex_heap
               = Some (ex_flat_state, h')"
    by blast
  from update_identity_stable [OF pA both, where b = defaultOpts and branch = ex_state
      and pm = ?pm and e = ex_env and a = "Ref 0"]
    idx cow names a si dist
  obtain branch' h' pm' where r:
    "Backend_update ex_env defaultOpts ex_state (Ref 0) ex_patch_A ex_heap = Some (branch', h')"
    "prefix ex_heap h'" "get_prop h' branch' (arrName defaultOpts) = Some (Ref 0)"
    "state_index defaultOpts h' branch' = Some pm'"
    and r5: "\<forall>k. (\<forall>i\<in>set [Num 0, Num 1]. key_of i = k \<longrightarrow> unchanged_by ex_heap ?pp (obj_get ?pm k))
         \<longrightarrow> map_of pm' k = map_of ?pm k"
    by blast
  from r5 k have "map_of pm' ''0'' = map_of ?pm ''0''" by blast
  then have "map_of pm' ''0'' = Some (Ref 1)" by simp
  with r have 3: "\<exists>branch' h' pm'.
         Backend_update ex_env defaultOpts ex_state (Ref 0) ex_patch_A ex_heap = Some (branch', h')
       \<and> prefix ex_heap h'
       \<and> get_prop h' branch' (arrName defaultOpts) = Some (Ref 0)
       \<and> state_index defaultOpts h' branch' = Some pm'
       \<and> map_of pm' ''0'' = Some (Ref 1)"
    by blast
  show ?thesis using ids both pA si u1 u2 fs 1 2 3 by blast
qed

subsection \<open>delete\<close>

text \<open>
  C2. In flat form with \<^verbatim>\<open>withMutations\<close> true, \<^verbatim>\<open>delete\<close> looks the identifier up
  in the array of records with \<^verbatim>\<open>indexOf\<close>, does not find it, and splices at -1:
  deleting identifier 0 from the records with identifiers 0 and 1 removes the last
  record, the one with identifier 1, and keeps the record with identifier 0. The same
  call with \<^verbatim>\<open>withMutations\<close> false keeps the record with identifier 1.
\<close>

theorem delete_flat_in_place_removes_last:
  "Backend_delete (flatOpts \<lparr> withMutations := True \<rparr>) ex_flat_state ex_ids ex_heap
     = Some (ex_flat_state, ex_heap [5 := Arr [Ref 1]])
   \<and> state_ids flatOpts (ex_heap [5 := Arr [Ref 1]]) ex_flat_state = Some [Ref 1]
   \<and> get_prop ex_heap (Ref 1) (idAttribute flatOpts) = Some (Num 0)
   \<and> get_arr ex_heap ex_ids = Some [Num 0]
   \<and> Backend_delete flatOpts ex_flat_state ex_ids ex_heap
     = Some (Ref 15, ex_heap @ [Arr [Ref 2], Obj [(''items'', Ref 14)]])"
  by code_simp

subsection \<open>getNextState\<close>

lemma reduce_updates_append:
  "reduce_updates e b (q1 @ q2) st h =
     reduce_updates e b q1 st h \<bind> (\<lambda>(st', h'). reduce_updates e b q2 st' h')"
proof (induction q1 arbitrary: st h)
  case Nil
  then show ?case by simp
next
  case (Cons x q)
  show ?case
  proof (cases "updateReducer e b st x h")
    case None
    then show ?thesis by simp
  next
    case (Some r)
    then show ?thesis using Cons.IH by (cases r) simp
  qed
qed

lemma reduce_updates_single: "reduce_updates e b [a] st h = updateReducer e b st a h"
  by (cases "updateReducer e b st a h") auto

lemma not_ref_scalar: "\<forall>r. i \<noteq> Ref r \<Longrightarrow> get_arr h i = None"
  by (cases i) (simp_all add: get_arr_def load_def)

lemma reduce_creates:
  assumes idx: "indexById b" and cow: "\<not> withMutations b" and names: "arrName b \<noteq> mapName b"
  shows "state_ids b h st = Some xs \<Longrightarrow> state_index b h st = Some pm \<Longrightarrow> distinct (map fst pm) \<Longrightarrow>
    \<forall>(p, i)\<in>set es. get_prop h p (idAttribute b) = Some i \<and> (\<forall>r. i \<noteq> Ref r) \<Longrightarrow>
    \<exists>st' h'. reduce_updates e b (map (\<lambda>(p, i). \<lparr> atype = CREATE, payload = p, meta_name = n \<rparr>) es) st h
                 = Some (st', h')
       \<and> state_ids b h' st' = Some (xs @ map snd es)
       \<and> state_index b h' st' = Some (foldl (\<lambda>pm (p, i). AList.update (key_of i) p pm) pm es)
       \<and> prefix h h'"
proof (induction es arbitrary: st h xs pm)
  case Nil
  then show ?case by simp
next
  case (Cons x es)
  obtain p i where x: "x = (p, i)" by (cases x)
  have pi: "get_prop h p (idAttribute b) = Some i" and nr: "\<forall>r. i \<noteq> Ref r"
    using Cons.prems(4) by (simp_all add: x)
  obtain st1 h1 where ins: "Backend_insert b st p h = Some (st1, h1)"
    and ids1: "state_ids b h1 st1 = Some (xs @ [i])"
    and idx1: "state_index b h1 st1 = Some (AList.update (key_of i) p pm)"
    and p1: "prefix h h1"
    using insert_cow[OF idx cow names Cons.prems(1) Cons.prems(2) Cons.prems(3) pi
        not_ref_scalar[OF nr]] by blast
  have d1: "distinct (map fst (AList.update (key_of i) p pm))"
    using Cons.prems(3) by (rule distinct_update)
  have rest: "\<forall>(p, i)\<in>set es. get_prop h1 p (idAttribute b) = Some i \<and> (\<forall>r. i \<noteq> Ref r)"
    using Cons.prems(4) get_prop_prefix[OF p1] by auto
  obtain st' h' where
    r: "reduce_updates e b (map (\<lambda>(p, i). \<lparr> atype = CREATE, payload = p, meta_name = n \<rparr>) es) st1 h1
          = Some (st', h')"
    and ids': "state_ids b h' st' = Some ((xs @ [i]) @ map snd es)"
    and idx': "state_index b h' st' =
        Some (foldl (\<lambda>pm (p, i). AList.update (key_of i) p pm) (AList.update (key_of i) p pm) es)"
    and p2: "prefix h1 h'"
    using Cons.IH[OF ids1 idx1 d1 rest] by blast
  have "reduce_updates e b (map (\<lambda>(p, i). \<lparr> atype = CREATE, payload = p, meta_name = n \<rparr>) (x # es)) st h
          = Some (st', h')"
    by (simp add: x updateReducer_def ins r)
  moreover have "prefix h h'" using p1 p2 by (rule prefix_order.trans)
  ultimately show ?case using ids' idx' by (simp add: x)
qed

lemma getNextState_creates:
  assumes idx: "indexById (Model_getBackend m s)" and cow: "\<not> withMutations (Model_getBackend m s)"
    and names: "arrName (Model_getBackend m s) \<noteq> mapName (Model_getBackend m s)"
    and q: "Session_getUpdatesFor m s
              = map (\<lambda>(p, i). \<lparr> atype = CREATE, payload = p, meta_name = modelName m \<rparr>) es"
    and ids: "state_ids (Model_getBackend m s) h (Model_state m s) = Some xs"
    and index: "state_index (Model_getBackend m s) h (Model_state m s) = Some pm"
    and dist: "distinct (map fst pm)"
    and es: "\<forall>(p, i)\<in>set es. get_prop h p (idAttribute (Model_getBackend m s)) = Some i
                \<and> (\<forall>r. i \<noteq> Ref r)"
  shows "\<exists>st' h'. Model_getNextState e m s h = Some (st', h')
       \<and> state_ids (Model_getBackend m s) h' st' = Some (xs @ map snd es)
       \<and> state_index (Model_getBackend m s) h' st'
           = Some (foldl (\<lambda>pm (p, i). AList.update (key_of i) p pm) pm es)
       \<and> prefix h h'"
proof -
  have "Model_state m s \<noteq> Undefined"
    using ids by (auto simp: state_ids_def get_prop_def)
  then show ?thesis
    using reduce_creates[OF idx cow names ids index dist es, of e "modelName m"]
    by (simp add: Model_getNextState_def q)
qed

lemma default_state_empty:
  assumes "arrName b \<noteq> mapName b"
  shows "case Backend_getDefaultState b h of (d, h') \<Rightarrow>
           state_ids b h' d = Some [] \<and> prefix h h'
           \<and> (if indexById b then state_index b h' d = Some [] else state_index b h' d = None)"
  using assms
  by (simp add: Backend_getDefaultState_def alloc_def assign_pair state_ids_def state_index_def
      get_prop_def load_def obj_get_def get_arr_def get_obj_def nth_append)

text \<open>
  C6. When the state of the model is undefined, \<^verbatim>\<open>getNextState\<close> returns the default
  state of the backend whatever the queue \<open>q\<close> holds, and the default state is empty.
  Otherwise the result is the fold of \<^verbatim>\<open>updateReducer\<close> over the model's pending
  actions from the current state, left to right: the fold over \<open>q1 @ q2\<close> is the fold
  over \<open>q2\<close> from the result of the fold over \<open>q1\<close>, and one action is applied as its type
  says: CREATE by \<^verbatim>\<open>insert\<close>, UPDATE by \<^verbatim>\<open>update\<close> with the payload's \<^verbatim>\<open>idArr\<close> and
  \<^verbatim>\<open>updater\<close>, ORDER by \<^verbatim>\<open>order\<close>, DELETE by \<^verbatim>\<open>delete\<close>, and any other type leaves
  the state as it is. For a queue of CREATE actions over a state in indexed form with
  \<^verbatim>\<open>withMutations\<close> false, the next state exists, its order sequence is the old one
  followed by the identifiers of the payloads in queue order, and its index map is the
  old one updated with each payload under its identifier, a later payload replacing an
  earlier one with the same identifier. The result depends on the session only through
  the state, the pending actions and the backend of the model.
\<close>

theorem getNextState_fold:
  "(Model_state m s = Undefined \<longrightarrow>
      Model_getNextState e m (s \<lparr> updates := q \<rparr>) h
        = Some (Backend_getDefaultState (Model_getBackend m s) h))
   \<and> (arrName b \<noteq> mapName b \<longrightarrow>
        (case Backend_getDefaultState b h of (d, h') \<Rightarrow>
           state_ids b h' d = Some [] \<and> prefix h h'
           \<and> (if indexById b then state_index b h' d = Some [] else state_index b h' d = None)))
   \<and> (Model_state m s \<noteq> Undefined \<longrightarrow>
        Model_getNextState e m s h
          = reduce_updates e (Model_getBackend m s) (Session_getUpdatesFor m s) (Model_state m s) h)
   \<and> reduce_updates e b (q1 @ q2) st h
        = reduce_updates e b q1 st h \<bind> (\<lambda>(st', h'). reduce_updates e b q2 st' h')
   \<and> reduce_updates e b [a] st h =
        (case atype a of
           CREATE \<Rightarrow> Backend_insert b st (payload a) h
         | UPDATE \<Rightarrow> do {
             idArr \<leftarrow> get_prop h (payload a) ''idArr'';
             updater \<leftarrow> get_prop h (payload a) ''updater'';
             Backend_update e b st idArr updater h
           }
         | ORDER \<Rightarrow> Backend_order e b st (payload a) Undefined h
         | DELETE \<Rightarrow> Backend_delete b st (payload a) h
         | OTHER t \<Rightarrow> Some (st, h))
   \<and> (indexById (Model_getBackend m s) \<longrightarrow> \<not> withMutations (Model_getBackend m s) \<longrightarrow>
        arrName (Model_getBackend m s) \<noteq> mapName (Model_getBackend m s) \<longrightarrow>
        Session_getUpdatesFor m s
          = map (\<lambda>(p, i). \<lparr> atype = CREATE, payload = p, meta_name = modelName m \<rparr>) es \<longrightarrow>
        state_ids (Model_getBackend m s) h (Model_state m s) = Some xs \<longrightarrow>
        state_index (Model_getBackend m s) h (Model_state m s) = Some pm \<longrightarrow>
        distinct (map fst pm) \<longrightarrow>
        (\<forall>(p, i)\<in>set es. get_prop h p (idAttribute (Model_getBackend m s)) = Some i
            \<and> (\<forall>r. i \<noteq> Ref r)) \<longrightarrow>
        (\<exists>st' h'. Model_getNextState e m s h = Some (st', h')
           \<and> state_ids (Model_getBackend m s) h' st' = Some (xs @ map snd es)
           \<and> state_index (Model_getBackend m s) h' st'
               = Some (foldl (\<lambda>pm (p, i). AList.update (key_of i) p pm) pm es)
           \<and> prefix h h'))
   \<and> (Model_state m s' = Model_state m s \<longrightarrow>
        Session_getUpdatesFor m s' = Session_getUpdatesFor m s \<longrightarrow>
        Model_getBackend m s' = Model_getBackend m s \<longrightarrow>
        Model_getNextState e m s' h = Model_getNextState e m s h)"
proof -
  have 1: "Model_state m s = Undefined \<longrightarrow>
      Model_getNextState e m (s \<lparr> updates := q \<rparr>) h
        = Some (Backend_getDefaultState (Model_getBackend m s) h)"
    by (simp add: Model_getNextState_def Model_state_def Session_getState_def
        Model_getDefaultState_def Model_getBackend_def)
  have 2: "arrName b \<noteq> mapName b \<longrightarrow>
        (case Backend_getDefaultState b h of (d, h') \<Rightarrow>
           state_ids b h' d = Some [] \<and> prefix h h'
           \<and> (if indexById b then state_index b h' d = Some [] else state_index b h' d = None))"
    by (rule impI) (rule default_state_empty)
  have 3: "Model_state m s \<noteq> Undefined \<longrightarrow>
        Model_getNextState e m s h
          = reduce_updates e (Model_getBackend m s) (Session_getUpdatesFor m s) (Model_state m s) h"
    by (simp add: Model_getNextState_def)
  have 4: "reduce_updates e b [a] st h =
        (case atype a of
           CREATE \<Rightarrow> Backend_insert b st (payload a) h
         | UPDATE \<Rightarrow> do {
             idArr \<leftarrow> get_prop h (payload a) ''idArr'';
             updater \<leftarrow> get_prop h (payload a) ''updater'';
             Backend_update e b st idArr updater h
           }
         | ORDER \<Rightarrow> Backend_order e b st (payload a) Undefined h
         | DELETE \<Rightarrow> Backend_delete b st (payload a) h
         | OTHER t \<Rightarrow> Some (st, h))"
    unfolding reduce_updates_single by (simp add: updateReducer_def)
  have 5: "indexById (Model_getBackend m s) \<longrightarrow> \<not> withMutations (Model_getBackend m s) \<longrightarrow>
        arrName (Model_getBackend m s) \<noteq> mapName (Model_getBackend m s) \<longrightarrow>
        Session_getUpdatesFor m s
          = map (\<lambda>(p, i). \<lparr> atype = CREATE, payload = p, meta_name = modelName m \<rparr>) es \<longrightarrow>
        state_ids (Model_getBackend m s) h (Model_state m s) = Some xs \<longrightarrow>
        state_index (Model_getBackend m s) h (Model_state m s) = Some pm \<longrightarrow>
        distinct (map fst pm) \<longrightarrow>
        (\<forall>(p, i)\<in>set es. get_prop h p (idAttribute (Model_getBackend m s)) = Some i
            \<and> (\<forall>r. i \<noteq> Ref r)) \<longrightarrow>
        (\<exists>st' h'. Model_getNextState e m s h = Some (st', h')
           \<and> state_ids (Model_getBackend m s) h' st' = Some (xs @ map snd es)
           \<and> state_index (Model_getBackend m s) h' st'
               = Some (foldl (\<lambda>pm (p, i). AList.update (key_of i) p pm) pm es)
           \<and> prefix h h')"
    using getNextState_creates[of m s es h xs pm e] by blast
  have 6: "Model_state m s' = Model_state m s \<longrightarrow>
        Session_getUpdatesFor m s' = Session_getUpdatesFor m s \<longrightarrow>
        Model_getBackend m s' = Model_getBackend m s \<longrightarrow>
        Model_getNextState e m s' h = Model_getNextState e m s h"
    by (simp add: Model_getNextState_def Model_getDefaultState_def)
  from 1 2 3 reduce_updates_append[of e b q1 q2 st h] 4 5 6 show ?thesis by (intro conjI)
qed

theorem getNextState_fold_witness:
  "Model_state ex_model ex_unset_session = Undefined
   \<and> Model_getNextState ex_env ex_model (ex_unset_session \<lparr> updates := [ex_create] \<rparr>) ex_heap
       = Some (Ref 16, ex_heap @ [Arr [], Obj [], Obj [(''items'', Ref 14), (''itemsById'', Ref 15)]])
   \<and> (case Backend_getDefaultState defaultOpts ex_heap of (d, h') \<Rightarrow>
         state_ids defaultOpts h' d = Some [] \<and> prefix ex_heap h'
         \<and> (if indexById defaultOpts then state_index defaultOpts h' d = Some []
            else state_index defaultOpts h' d = None))
   \<and> Session_getUpdatesFor ex_model (ex_session \<lparr> updates := [ex_create, ex_create_again] \<rparr>)
       = map (\<lambda>(p, i). \<lparr> atype = CREATE, payload = p, meta_name = modelName ex_model \<rparr>)
           [(ex_entry, Num 2), (ex_lookup_id, Num 1)]
   \<and> (\<exists>st' h'. Model_getNextState ex_env ex_model
                   (ex_session \<lparr> updates := [ex_create, ex_create_again] \<rparr>) ex_heap = Some (st', h')
         \<and> state_ids defaultOpts h' st' = Some [Num 0, Num 1, Num 2, Num 1]
         \<and> state_index defaultOpts h' st' = Some [(''0'', Ref 1), (''1'', Ref 13), (''2'', Ref 10)]
         \<and> prefix ex_heap h')
   \<and> Model_getNextState ex_env ex_model
         (ex_session \<lparr> updates := [ex_create_again, ex_create] \<rparr>) ex_heap
       \<bind> (\<lambda>(st, h'). state_ids defaultOpts h' st) = Some [Num 0, Num 1, Num 1, Num 2]
   \<and> Model_getNextState ex_env ex_model (ex_session \<lparr> updates := [ex_create, ex_delete] \<rparr>) ex_heap
       \<bind> (\<lambda>(st, h'). Some (state_ids defaultOpts h' st, state_index defaultOpts h' st))
       = Some (Some [Num 1, Num 2], Some [(''1'', Ref 2), (''2'', Ref 10)])
   \<and> Model_getNextState ex_env ex_model (ex_session \<lparr> updates := [ex_create, ex_update] \<rparr>)
         ex_update_heap
       \<bind> (\<lambda>(st, h'). Some (state_ids defaultOpts h' st,
              Backend_accessId defaultOpts st (Num 0) h' \<bind> (\<lambda>r. get_obj h' r),
              Backend_accessId defaultOpts st (Num 1) h',
              Backend_accessId defaultOpts st (Num 2) h'))
       = Some (Some [Num 0, Num 1, Num 2],
               Some [(''id'', Num 0), (''name'', Str ''C''), (''tag'', Str ''t'')],
               Some (Ref 2), Some (Ref 10))
   \<and> Model_getNextState ex_env ex_model
         (ex_session \<lparr> updates := [ex_create, ex_delete], nextIds := [(''Book'', Num 9)] \<rparr>) ex_heap
       = Model_getNextState ex_env ex_model (ex_session \<lparr> updates := [ex_create, ex_delete] \<rparr>) ex_heap"
proof -
  let ?s = "ex_session \<lparr> updates := [ex_create, ex_delete] \<rparr>"
  let ?s' = "ex_session \<lparr> updates := [ex_create, ex_delete], nextIds := [(''Book'', Num 9)] \<rparr>"
  let ?c = "ex_session \<lparr> updates := [ex_create, ex_create_again] \<rparr>"
  let ?es = "[(ex_entry, Num 2), (ex_lookup_id, Num 1)]"
  let ?pm = "[(''0'', Ref 1), (''1'', Ref 2)]"
  have 1: "Model_state ex_model ex_unset_session = Undefined" by code_simp
  have 2: "arrName defaultOpts \<noteq> mapName defaultOpts" by (simp add: defaultOpts_def)
  have d: "Backend_getDefaultState (Model_getBackend ex_model ex_unset_session) ex_heap
      = (Ref 16, ex_heap @ [Arr [], Obj [], Obj [(''items'', Ref 14), (''itemsById'', Ref 15)]])"
    by code_simp
  have 5: "Model_state ex_model ?s' = Model_state ex_model ?s"
    "Session_getUpdatesFor ex_model ?s' = Session_getUpdatesFor ex_model ?s"
    "Model_getBackend ex_model ?s' = Model_getBackend ex_model ?s"
    by code_simp+
  have b: "Model_getBackend ex_model ?c = defaultOpts" by code_simp
  have c1: "indexById (Model_getBackend ex_model ?c)" "\<not> withMutations (Model_getBackend ex_model ?c)"
    "arrName (Model_getBackend ex_model ?c) \<noteq> mapName (Model_getBackend ex_model ?c)"
    by (simp_all add: b defaultOpts_def)
  have c2: "Session_getUpdatesFor ex_model ?c
       = map (\<lambda>(p, i). \<lparr> atype = CREATE, payload = p, meta_name = modelName ex_model \<rparr>) ?es"
    by code_simp
  have c3: "state_ids (Model_getBackend ex_model ?c) ex_heap (Model_state ex_model ?c) = Some [Num 0, Num 1]"
    "state_index (Model_getBackend ex_model ?c) ex_heap (Model_state ex_model ?c) = Some ?pm"
    by code_simp+
  have c4: "distinct (map fst ?pm)" by simp
  have c5: "\<forall>(p, i)\<in>set ?es. get_prop ex_heap p (idAttribute (Model_getBackend ex_model ?c)) = Some i
            \<and> (\<forall>r. i \<noteq> Ref r)"
  proof -
    have "get_prop ex_heap ex_entry (idAttribute (Model_getBackend ex_model ?c)) = Some (Num 2)"
      "get_prop ex_heap ex_lookup_id (idAttribute (Model_getBackend ex_model ?c)) = Some (Num 1)"
      by code_simp+
    then show ?thesis by simp
  qed
  have f: "foldl (\<lambda>pm (p, i). AList.update (key_of i) p pm) ?pm ?es
      = [(''0'', Ref 1), (''1'', Ref 13), (''2'', Ref 10)]"
    by code_simp
  note T = getNextState_fold [where m = ex_model and s = ex_unset_session and e = ex_env
      and q = "[ex_create]" and h = ex_heap and b = defaultOpts]
  note a1 = T [THEN conjunct1, rule_format, OF 1]
  note a2 = T [THEN conjunct2, THEN conjunct1, rule_format, OF 2]
  from getNextState_fold [where m = ex_model and s = ?c and e = ex_env and h = ex_heap
      and es = ?es and xs = "[Num 0, Num 1]" and pm = ?pm] c1 c2 c3 c4 c5
  obtain st' h' where r: "Model_getNextState ex_env ex_model ?c ex_heap = Some (st', h')"
    "state_ids (Model_getBackend ex_model ?c) h' st' = Some ([Num 0, Num 1] @ map snd ?es)"
    "state_index (Model_getBackend ex_model ?c) h' st'
       = Some (foldl (\<lambda>pm (p, i). AList.update (key_of i) p pm) ?pm ?es)"
    "prefix ex_heap h'"
    by blast
  have a3: "\<exists>st' h'. Model_getNextState ex_env ex_model ?c ex_heap = Some (st', h')
         \<and> state_ids defaultOpts h' st' = Some [Num 0, Num 1, Num 2, Num 1]
         \<and> state_index defaultOpts h' st' = Some [(''0'', Ref 1), (''1'', Ref 13), (''2'', Ref 10)]
         \<and> prefix ex_heap h'"
    using r unfolding f b by auto
  from getNextState_fold [where m = ex_model and s = ?s and s' = ?s' and e = ex_env and h = ex_heap] 5
  have a4: "Model_getNextState ex_env ex_model ?s' ex_heap = Model_getNextState ex_env ex_model ?s ex_heap"
    by blast
  have e1: "Model_getNextState ex_env ex_model
         (ex_session \<lparr> updates := [ex_create_again, ex_create] \<rparr>) ex_heap
       \<bind> (\<lambda>(st, h'). state_ids defaultOpts h' st) = Some [Num 0, Num 1, Num 1, Num 2]"
    by code_simp
  have e2: "Model_getNextState ex_env ex_model ?s ex_heap
       \<bind> (\<lambda>(st, h'). Some (state_ids defaultOpts h' st, state_index defaultOpts h' st))
       = Some (Some [Num 1, Num 2], Some [(''1'', Ref 2), (''2'', Ref 10)])"
    by code_simp
  have e3: "Model_getNextState ex_env ex_model (ex_session \<lparr> updates := [ex_create, ex_update] \<rparr>)
         ex_update_heap
       \<bind> (\<lambda>(st, h'). Some (state_ids defaultOpts h' st,
              Backend_accessId defaultOpts st (Num 0) h' \<bind> (\<lambda>r. get_obj h' r),
              Backend_accessId defaultOpts st (Num 1) h',
              Backend_accessId defaultOpts st (Num 2) h'))
       = Some (Some [Num 0, Num 1, Num 2],
               Some [(''id'', Num 0), (''name'', Str ''C''), (''tag'', Str ''t'')],
               Some (Ref 2), Some (Ref 10))"
    by code_simp
  show ?thesis
    apply (intro conjI)
            apply (rule 1)
           apply (rule a1[unfolded d])
          apply (rule a2)
         apply (rule c2)
        apply (rule a3)
       apply (rule e1)
      apply (rule e2)
     apply (rule e3)
    apply (rule a4)
    done
qed

subsection \<open>withId and get\<close>

text \<open>
  C4, as the claim states it: \<^verbatim>\<open>withId\<close> of an identifier that is not in the state
  gives an absent indicator. The source wraps whatever \<^verbatim>\<open>accessId\<close> returns in a new
  instance: for identifier 7, which the example state does not hold, the result is an
  instance whose \<^verbatim>\<open>_fields\<close> is undefined.
\<close>

theorem withId_absent_counterexample:
  "Model_accessId ex_model (Num 7) ex_session ex_heap = Some Undefined
   \<and> Model_withId ex_model (Num 7) ex_session ex_heap
       = Some \<lparr> h_fields = Undefined, fieldNames = [], accessors = [] \<rparr>"
  by code_simp

text \<open>
  C4, amended. For every identifier that the state does not hold (\<^verbatim>\<open>accessId\<close> gives
  \<^verbatim>\<open>undefined\<close>), \<^verbatim>\<open>withId\<close> returns an instance: one whose field snapshot is
  undefined, with no field names and no accessors. It raises nothing and returns no
  absent indicator.
\<close>

theorem withId_absent_gives_empty_handle:
  assumes "Model_accessId m i s h = Some Undefined"
  shows "Model_withId m i s h = Some \<lparr> h_fields = Undefined, fieldNames = [], accessors = [] \<rparr>"
  using assms by (simp add: Model_withId_def initFields_def own_props_def load_def)

theorem withId_absent_gives_empty_handle_witness:
  "Model_accessId ex_model (Num 42) ex_session ex_heap = Some Undefined
   \<and> Model_withId ex_model (Num 42) ex_session ex_heap
       = Some \<lparr> h_fields = Undefined, fieldNames = [], accessors = [] \<rparr>"
proof -
  have 1: "Model_accessId ex_model (Num 42) ex_session ex_heap = Some Undefined" by code_simp
  show ?thesis using withId_absent_gives_empty_handle [OF 1] 1 by simp
qed

text \<open>
  C3, as the claim states it: \<^verbatim>\<open>get\<close> with a pattern that more than one record matches
  raises an error. Both records of the example state match the pattern
  \<^verbatim>\<open>{tag: "t"}\<close>, and \<^verbatim>\<open>get\<close> returns an instance of the first.
\<close>

theorem get_ambiguous_counterexample:
  "match ex_heap ex_pattern_both (Ref 1) \<and> match ex_heap ex_pattern_both (Ref 2)
   \<and> Model_accessId ex_model (Num 0) ex_session ex_heap = Some (Ref 1)
   \<and> Model_accessId ex_model (Num 1) ex_session ex_heap = Some (Ref 2)
   \<and> Model_get ex_model ex_pattern_both ex_session ex_heap
       = Inr \<lparr> h_fields = Ref 1, fieldNames = [''id'', ''name'', ''tag''],
               accessors = [(''id'', Num 0), (''name'', Str ''A''), (''tag'', Str ''t'')] \<rparr>"
  by code_simp

lemma match_Undefined: "\<not> match h lookupObj Undefined"
  by (simp add: match_def get_obj_def load_def)

lemma get_loop_first_match:
  assumes "those (map (\<lambda>x. iterator_value b branch x h) xs) = Some vs"
  shows "get_loop m b branch lookupObj h xs =
           (case find (match h lookupObj) vs of
              Some v \<Rightarrow> Inr (initFields m v h)
            | None \<Rightarrow> Inl InstanceNotFound)"
  using assms
proof (induction xs arbitrary: vs)
  case Nil
  then show ?case by (simp add: match_Undefined)
next
  case (Cons x xs)
  then obtain v vs' where v: "iterator_value b branch x h = Some v"
    and vs': "those (map (\<lambda>x. iterator_value b branch x h) xs) = Some vs'"
    and vs: "vs = v # vs'"
    by (auto split: option.splits)
  show ?case using Cons.IH[OF vs'] by (simp add: v vs)
qed

lemma get_arr_length: "get_arr h a = Some xs \<Longrightarrow> get_prop h a ''length'' = Some (Num (int (length xs)))"
proof -
  assume "get_arr h a = Some xs"
  then have l: "load h a = Some (Arr xs)" by (simp add: get_arr_Some)
  then obtain r where "a = Ref r" by (auto dest: load_SomeD)
  then show ?thesis using l by (simp add: get_prop_def arr_get_def)
qed

text \<open>
  C3, amended. For a lookup object without the identifier attribute, over a state whose
  records can all be read: on an empty store \<^verbatim>\<open>get\<close> raises "No entities found";
  otherwise it returns an instance of the first record in store order that matches the
  pattern, however many records match, and raises "Model instance not found" when no
  record matches. The two errors are distinct, and no error is raised for more than one
  match.
\<close>

theorem get_returns_first_match:
  assumes ids: "Model_accessIds m s h = Some a" and xs: "get_arr h a = Some xs"
    and noid: "has_own h lookupObj (idAttribute (Model_getBackend m s)) = Some False"
    and vs: "those (map (\<lambda>x. iterator_value (Model_getBackend m s) (Model_state m s) x h) xs) = Some vs"
  shows "Model_get m lookupObj s h =
           (if xs = [] then Inl NoEntitiesFound
            else case find (match h lookupObj) vs of
                   Some v \<Rightarrow> Inr (initFields m v h)
                 | None \<Rightarrow> Inl InstanceNotFound)"
proof -
  have len: "get_prop h a ''length'' = Some (Num (int (length xs)))"
    using xs by (rule get_arr_length)
  have ail: "Backend_accessIdList (Model_getBackend m s) (Model_state m s) h = Some a"
    using ids by (simp add: Model_accessIds_def)
  show ?thesis
    by (simp add: Model_get_def Let_def ids len truthy_def noid ail xs get_loop_first_match[OF vs])
qed

theorem get_returns_first_match_witness:
  "Model_accessIds ex_model ex_session ex_heap = Some (Ref 0)
   \<and> get_arr ex_heap (Ref 0) = Some [Num 0, Num 1]
   \<and> has_own ex_heap ex_pattern_both (idAttribute (Model_getBackend ex_model ex_session)) = Some False
   \<and> has_own ex_heap ex_pattern_none (idAttribute (Model_getBackend ex_model ex_session)) = Some False
   \<and> find (match ex_heap ex_pattern_both) [Ref 1, Ref 2] = Some (Ref 1)
   \<and> find (match ex_heap ex_pattern_none) [Ref 1, Ref 2] = None
   \<and> Model_get ex_model ex_pattern_both ex_session ex_heap
       = Inr \<lparr> h_fields = Ref 1, fieldNames = [''id'', ''name'', ''tag''],
               accessors = [(''id'', Num 0), (''name'', Str ''A''), (''tag'', Str ''t'')] \<rparr>
   \<and> Model_get ex_model ex_pattern_none ex_session ex_heap = Inl InstanceNotFound"
proof -
  have 1: "Model_accessIds ex_model ex_session ex_heap = Some (Ref 0)" by code_simp
  have 2: "get_arr ex_heap (Ref 0) = Some [Num 0, Num 1]" by code_simp
  have 3: "has_own ex_heap ex_pattern_both (idAttribute (Model_getBackend ex_model ex_session)) = Some False"
    by code_simp
  have 4: "has_own ex_heap ex_pattern_none (idAttribute (Model_getBackend ex_model ex_session)) = Some False"
    by code_simp
  have 5: "those (map (\<lambda>x. iterator_value (Model_getBackend ex_model ex_session)
              (Model_state ex_model ex_session) x ex_heap) [Num 0, Num 1]) = Some [Ref 1, Ref 2]"
    by code_simp
  have 6: "find (match ex_heap ex_pattern_both) [Ref 1, Ref 2] = Some (Ref 1)" by code_simp
  have 7: "find (match ex_heap ex_pattern_none) [Ref 1, Ref 2] = None" by code_simp
  have 8: "initFields ex_model (Ref 1) ex_heap
      = \<lparr> h_fields = Ref 1, fieldNames = [''id'', ''name'', ''tag''],
          accessors = [(''id'', Num 0), (''name'', Str ''A''), (''tag'', Str ''t'')] \<rparr>"
    by code_simp
  show ?thesis
    using get_returns_first_match [OF 1 2 3 5] get_returns_first_match [OF 1 2 4 5] 1 2 3 4 6 7 8
    by simp
qed

lemma initFields_obj:
  "get_obj h r = Some ps \<Longrightarrow>
     initFields m r h = \<lparr> h_fields = r, fieldNames = map fst ps,
        accessors = filter (\<lambda>(k, v). k \<notin> set (definedProperties m)) ps \<rparr>"
  by (simp add: initFields_def own_props_obj)

lemma has_own_obj:
  "get_obj h v = Some ps \<Longrightarrow> has_own h v k = Some (map_of ps k \<noteq> None)"
proof -
  assume g: "get_obj h v = Some ps"
  then obtain r where v: "v = Ref r" by (auto simp: get_obj_Some dest: load_SomeD)
  have "own_props h (Ref r) = ps" using own_props_obj[OF g] by (simp add: v)
  then show ?thesis by (simp add: has_own_def v hasOwnProperty_def)
qed

lemma map_snd_zip_index: "map snd (zip (index_keys (length xs)) xs) = xs"
  by (simp add: index_keys_def)

lemma accessId_indexed:
  assumes "indexById b" "state_index b h branch = Some pm"
  shows "Backend_accessId b branch i h = Some (obj_get pm (key_of i))"
  using assms by (auto simp: Backend_accessId_def state_index_def bind_eq_Some_conv get_prop_obj)

lemma accessId_flat:
  assumes "\<not> indexById b" "state_ids b h branch = Some xs"
  shows "Backend_accessId b branch i h =
           Some (case find (lodash_matches h (idAttribute b) i) xs of Some r \<Rightarrow> r | None \<Rightarrow> Undefined)"
  using assms
  by (auto simp: Backend_accessId_def state_ids_def bind_eq_Some_conv lodash_find_def
      own_props_def get_arr_Some map_snd_zip_index)

lemma get_by_id:
  assumes ids: "state_ids (Model_getBackend m s) h (Model_state m s) = Some xs" and ne: "xs \<noteq> []"
    and lk: "get_obj h lookupObj = Some lp"
    and i: "map_of lp (idAttribute (Model_getBackend m s)) = Some i"
    and acc: "Model_accessId m i s h = Some r"
  shows "Model_get m lookupObj s h = (if r = Undefined then Inl InstanceNotFound else Inr (initFields m r h))"
proof -
  obtain a where a: "Model_accessIds m s h = Some a" and xs: "get_arr h a = Some xs"
    using ids by (auto simp: state_ids_def Model_accessIds_def Backend_accessIdList_def bind_eq_Some_conv)
  have len: "get_prop h a ''length'' = Some (Num (int (length xs)))" using xs by (rule get_arr_length)
  have own: "has_own h lookupObj (idAttribute (Model_getBackend m s)) = Some True"
    using has_own_obj[OF lk] i by simp
  have gi: "get_prop h lookupObj (idAttribute (Model_getBackend m s)) = Some i"
    using get_prop_obj[OF lk] i by (simp add: obj_get_def)
  show ?thesis using ne
    by (simp add: Model_get_def Let_def a len truthy_def own gi acc)
qed

text \<open>
  C10. The lookup object is a record that has the identifier attribute as an own key,
  with the value \<open>i\<close>, and the store is not empty. Then \<^verbatim>\<open>get\<close> looks the identifier up
  and nothing else. When the state holds a record for \<open>i\<close> (in indexed form under the key
  of \<open>i\<close> in the index map, in flat form the first record of the array whose identifier
  attribute is \<open>i\<close>), it returns the instance of that record: its \<^verbatim>\<open>_fields\<close> are the
  record, its field names the record's keys, and it reads the record's values. When the
  state holds none, it raises "Model instance not found". Nothing is assumed about the
  other keys of the lookup object: in the example it names identifier 1 and the name
  "A", the record under 1 has the name "B" and does not match the pattern, and \<^verbatim>\<open>get\<close>
  returns it with the name "B"; the object \<^verbatim>\<open>{id: 2, name: "X"}\<close> finds nothing.
\<close>

theorem get_by_id_ignores_other_keys:
  assumes ids: "state_ids (Model_getBackend m s) h (Model_state m s) = Some xs" and nonempty: "xs \<noteq> []"
    and lk: "get_obj h lookupObj = Some lp"
    and i: "map_of lp (idAttribute (Model_getBackend m s)) = Some i"
  shows "(indexById (Model_getBackend m s) \<longrightarrow>
            state_index (Model_getBackend m s) h (Model_state m s) = Some pm \<longrightarrow>
              (map_of pm (key_of i) = Some r \<longrightarrow> get_obj h r = Some ps \<longrightarrow>
                 Model_get m lookupObj s h
                   = Inr \<lparr> h_fields = r, fieldNames = map fst ps,
                           accessors = filter (\<lambda>(k, v). k \<notin> set (definedProperties m)) ps \<rparr>)
            \<and> (map_of pm (key_of i) = None \<longrightarrow> Model_get m lookupObj s h = Inl InstanceNotFound))
       \<and> (\<not> indexById (Model_getBackend m s) \<longrightarrow>
              (find (lodash_matches h (idAttribute (Model_getBackend m s)) i) xs = Some r \<longrightarrow>
               get_obj h r = Some ps \<longrightarrow>
                 Model_get m lookupObj s h
                   = Inr \<lparr> h_fields = r, fieldNames = map fst ps,
                           accessors = filter (\<lambda>(k, v). k \<notin> set (definedProperties m)) ps \<rparr>)
            \<and> (find (lodash_matches h (idAttribute (Model_getBackend m s)) i) xs = None \<longrightarrow>
                 Model_get m lookupObj s h = Inl InstanceNotFound))"
proof -
  note G = get_by_id[OF ids nonempty lk i]
  have obj: "r \<noteq> Undefined" if "get_obj h r = Some ps"
    using that by (auto simp: get_obj_Some dest: load_SomeD)
  have A: "Model_get m lookupObj s h
             = Inr \<lparr> h_fields = r, fieldNames = map fst ps,
                     accessors = filter (\<lambda>(k, v). k \<notin> set (definedProperties m)) ps \<rparr>"
    if "indexById (Model_getBackend m s)"
      "state_index (Model_getBackend m s) h (Model_state m s) = Some pm"
      "map_of pm (key_of i) = Some r" "get_obj h r = Some ps"
  proof -
    have "Model_accessId m i s h = Some r"
      using accessId_indexed[OF that(1,2), of i] that(3) by (simp add: Model_accessId_def obj_get_def)
    from G[OF this] show ?thesis using obj[OF that(4)] by (simp add: initFields_obj[OF that(4)])
  qed
  have B: "Model_get m lookupObj s h = Inl InstanceNotFound"
    if "indexById (Model_getBackend m s)"
      "state_index (Model_getBackend m s) h (Model_state m s) = Some pm"
      "map_of pm (key_of i) = None"
  proof -
    have "Model_accessId m i s h = Some Undefined"
      using accessId_indexed[OF that(1,2), of i] that(3) by (simp add: Model_accessId_def obj_get_def)
    from G[OF this] show ?thesis by simp
  qed
  have C: "Model_get m lookupObj s h
             = Inr \<lparr> h_fields = r, fieldNames = map fst ps,
                     accessors = filter (\<lambda>(k, v). k \<notin> set (definedProperties m)) ps \<rparr>"
    if "\<not> indexById (Model_getBackend m s)"
      "find (lodash_matches h (idAttribute (Model_getBackend m s)) i) xs = Some r" "get_obj h r = Some ps"
  proof -
    have "Model_accessId m i s h = Some r"
      using accessId_flat[OF that(1) ids, of i] that(2) by (simp add: Model_accessId_def)
    from G[OF this] show ?thesis using obj[OF that(3)] by (simp add: initFields_obj[OF that(3)])
  qed
  have D: "Model_get m lookupObj s h = Inl InstanceNotFound"
    if "\<not> indexById (Model_getBackend m s)"
      "find (lodash_matches h (idAttribute (Model_getBackend m s)) i) xs = None"
  proof -
    have "Model_accessId m i s h = Some Undefined"
      using accessId_flat[OF that(1) ids, of i] that(2) by (simp add: Model_accessId_def)
    from G[OF this] show ?thesis by simp
  qed
  from A B C D show ?thesis by blast
qed

theorem get_by_id_ignores_other_keys_witness:
  "state_ids (Model_getBackend ex_model ex_session) ex_heap (Model_state ex_model ex_session)
       = Some [Num 0, Num 1]
   \<and> get_obj ex_heap ex_lookup_id = Some [(''id'', Num 1), (''name'', Str ''A'')]
   \<and> state_index (Model_getBackend ex_model ex_session) ex_heap (Model_state ex_model ex_session)
       = Some [(''0'', Ref 1), (''1'', Ref 2)]
   \<and> get_obj ex_heap (Ref 2) = Some [(''id'', Num 1), (''name'', Str ''B''), (''tag'', Str ''t'')]
   \<and> \<not> match ex_heap ex_lookup_id (Ref 2)
   \<and> Model_get ex_model ex_lookup_id ex_session ex_heap
       = Inr \<lparr> h_fields = Ref 2, fieldNames = [''id'', ''name'', ''tag''],
               accessors = [(''id'', Num 1), (''name'', Str ''B''), (''tag'', Str ''t'')] \<rparr>
   \<and> state_ids (Model_getBackend ex_flat_model ex_flat_session) ex_heap
         (Model_state ex_flat_model ex_flat_session) = Some [Ref 1, Ref 2]
   \<and> find (lodash_matches ex_heap ''id'' (Num 1)) [Ref 1, Ref 2] = Some (Ref 2)
   \<and> Model_get ex_flat_model ex_lookup_id ex_flat_session ex_heap
       = Inr \<lparr> h_fields = Ref 2, fieldNames = [''id'', ''name'', ''tag''],
               accessors = [(''id'', Num 1), (''name'', Str ''B''), (''tag'', Str ''t'')] \<rparr>
   \<and> get_obj ex_heap ex_entry = Some [(''id'', Num 2), (''name'', Str ''X'')]
   \<and> Model_get ex_model ex_entry ex_session ex_heap = Inl InstanceNotFound
   \<and> Model_get ex_flat_model ex_entry ex_flat_session ex_heap = Inl InstanceNotFound"
proof -
  let ?b = "Model_getBackend ex_model ex_session"
  let ?fb = "Model_getBackend ex_flat_model ex_flat_session"
  let ?lp = "[(''id'', Num 1), (''name'', Str ''A'')]"
  let ?ps = "[(''id'', Num 1), (''name'', Str ''B''), (''tag'', Str ''t'')]"
  let ?pm = "[(''0'', Ref 1), (''1'', Ref 2)]"
  have b: "?b = defaultOpts" and fb: "?fb = flatOpts" by code_simp+
  have idx: "indexById ?b" and flat: "\<not> indexById ?fb"
    by (simp_all add: b fb defaultOpts_def flatOpts_def)
  have ida: "idAttribute ?b = ''id''" "idAttribute ?fb = ''id''"
    by (simp_all add: b fb defaultOpts_def flatOpts_def)
  have 1: "state_ids ?b ex_heap (Model_state ex_model ex_session) = Some [Num 0, Num 1]" by code_simp
  have 2: "[Num 0, Num 1] \<noteq> []" "[Ref 1, Ref 2] \<noteq> []" by simp_all
  have 3: "get_obj ex_heap ex_lookup_id = Some ?lp" by code_simp
  have 4: "map_of ?lp (idAttribute ?b) = Some (Num 1)" "map_of ?lp (idAttribute ?fb) = Some (Num 1)"
    by (simp_all add: ida)
  have 5: "state_index ?b ex_heap (Model_state ex_model ex_session) = Some ?pm" by code_simp
  have 6: "map_of ?pm (key_of (Num 1)) = Some (Ref 2)" by code_simp
  have 7: "get_obj ex_heap (Ref 2) = Some ?ps" by code_simp
  have 8: "\<not> match ex_heap ex_lookup_id (Ref 2)" by code_simp
  have 9: "state_ids ?fb ex_heap (Model_state ex_flat_model ex_flat_session) = Some [Ref 1, Ref 2]"
    by code_simp
  have 10: "find (lodash_matches ex_heap ''id'' (Num 1)) [Ref 1, Ref 2] = Some (Ref 2)" by code_simp
  have 11: "get_obj ex_heap ex_entry = Some [(''id'', Num 2), (''name'', Str ''X'')]" by code_simp
  have 12: "map_of [(''id'', Num 2), (''name'', Str ''X'')] (idAttribute ?b) = Some (Num 2)"
    "map_of [(''id'', Num 2), (''name'', Str ''X'')] (idAttribute ?fb) = Some (Num 2)"
    by (simp_all add: ida)
  have 13: "map_of ?pm (key_of (Num 2)) = None" by code_simp
  have 14: "find (lodash_matches ex_heap ''id'' (Num 2)) [Ref 1, Ref 2] = None" by code_simp
  have dp: "definedProperties ex_model = []" "definedProperties ex_flat_model = []"
    by (simp_all add: ex_model_def ex_flat_model_def)
  from get_by_id_ignores_other_keys [OF 1 2(1) 3 4(1), where pm = ?pm and r = "Ref 2" and ps = ?ps]
    idx 5 6 7
  have A: "Model_get ex_model ex_lookup_id ex_session ex_heap
       = Inr \<lparr> h_fields = Ref 2, fieldNames = [''id'', ''name'', ''tag''], accessors = ?ps \<rparr>"
    by (simp add: dp)
  from get_by_id_ignores_other_keys [OF 9 2(2) 3 4(2), where r = "Ref 2" and ps = ?ps]
    flat 10 7
  have B: "Model_get ex_flat_model ex_lookup_id ex_flat_session ex_heap
       = Inr \<lparr> h_fields = Ref 2, fieldNames = [''id'', ''name'', ''tag''], accessors = ?ps \<rparr>"
    by (simp add: dp ida)
  from get_by_id_ignores_other_keys [OF 1 2(1) 11 12(1), where pm = ?pm] idx 5 13
  have C: "Model_get ex_model ex_entry ex_session ex_heap = Inl InstanceNotFound" by simp
  from get_by_id_ignores_other_keys [OF 9 2(2) 11 12(2)] flat 14
  have D: "Model_get ex_flat_model ex_entry ex_flat_session ex_heap = Inl InstanceNotFound"
    by (simp add: ida)
  show ?thesis using 1 3 5 7 8 A 9 10 B 11 C D by (intro conjI)
qed

subsection \<open>Identifier assignment\<close>

text \<open>
  C1. On an empty store the next identifier is 0. \<^verbatim>\<open>create({id: 0, name: "A"})\<close>
  compares \<^verbatim>\<open>id > this.nextId()\<close>, which is false for 0 and 0, and leaves the counter
  at 0; the following \<^verbatim>\<open>create({name: "B"})\<close> is assigned 0 again, an identifier that a
  pending CREATE of the same batch already uses. An explicit identifier above the
  counter does advance it: after \<^verbatim>\<open>create({id: 5, name: "E"})\<close> the next assigned
  identifier is 6.
\<close>

theorem create_reuses_explicit_identifier:
  "do { (i1, s1, h1) \<leftarrow> Model_create ex_env ex_model (Ref 3) ex_empty_session ex_empty_heap;
        (i2, s2, h2) \<leftarrow> Model_create ex_env ex_model (Ref 4) s1 h1;
        Some (read_field i1 ''id'', read_field i2 ''id'',
              map (\<lambda>a. get_prop h2 (payload a) ''id'') (updates s2), cache_nextId ex_model s2) }
     = Some (Some (Num 0), Some (Num 0), [Some (Num 0), Some (Num 0)], Num 1)
   \<and> get_prop ex_empty_heap (Ref 3) ''id'' = Some (Num 0)
   \<and> get_prop ex_empty_heap (Ref 4) ''id'' = Some Undefined
   \<and> do { (i1, s1, h1) \<leftarrow> Model_create ex_env ex_model (Ref 5) ex_empty_session ex_empty_heap;
        (i2, s2, h2) \<leftarrow> Model_create ex_env ex_model (Ref 4) s1 h1;
        Some (read_field i1 ''id'', read_field i2 ''id'', cache_nextId ex_model s2) }
     = Some (Some (Num 5), Some (Num 6), Num 7)"
  by code_simp

subsection \<open>Assignment through an instance\<close>

text \<open>
  C8. The accessor that \<^verbatim>\<open>_initFields\<close> defines enqueues an UPDATE action whose
  payload is \<^verbatim>\<open>{id: 0, name: "C"}\<close>; reading the field through the instance still gives
  "A" and no cell of the heap is written. \<^verbatim>\<open>updateReducer\<close> reads
  \<^verbatim>\<open>payload.idArr\<close> and \<^verbatim>\<open>payload.updater\<close>, which this payload does not have, and
  \<^verbatim>\<open>update\<close> throws on the undefined identifier list: \<^verbatim>\<open>getNextState\<close> produces no
  state. The same change made with \<^verbatim>\<open>update({name: "C"})\<close> on the instance enqueues
  \<^verbatim>\<open>{idArr: [0], updater: {name: "C"}}\<close>, and the folded state holds the name "C".
\<close>

theorem field_setter_breaks_the_fold:
  "do { inst \<leftarrow> Model_withId ex_model (Num 0) ex_session ex_heap;
        (s1, h1) \<leftarrow> field_setter ex_model inst ''name'' (Str ''C'') ex_session ex_heap;
        Some (read_field inst ''name'', map atype (updates s1), take (length ex_heap) h1 = ex_heap,
              get_prop h1 (payload (last (updates s1))) ''idArr'',
              Model_getNextState ex_env ex_model s1 h1) }
     = Some (Some (Str ''A''), [UPDATE], True, Some Undefined, None)
   \<and> do { inst \<leftarrow> Model_withId ex_model (Num 0) ex_session ex_heap;
        (s1, h1) \<leftarrow> Model_update ex_env ex_model inst ex_patch_C ex_session ex_heap;
        (st, h2) \<leftarrow> Model_getNextState ex_env ex_model s1 h1;
        r \<leftarrow> Backend_accessId defaultOpts st (Num 0) h2;
        get_prop h2 r ''name'' }
     = Some (Str ''C'')"
  by code_simp

subsection \<open>Reconciling a many-to-many field\<close>











end
